theory Spec2Isabelle
  imports Main "HOL-Library.Word"
begin

section \<open>Data model\<close>

text \<open>
  Go strings are byte sequences: \<open>len\<close> counts bytes and \<open>s[i:j]\<close> slices bytes.
  They are modelled as \<open>string\<close> (a list of 8-bit characters). A \<open>[]byte\<close> is a list of
  8-bit words; a nil slice and an empty slice are both the empty list.
\<close>

type_synonym byte = "8 word"

definition bytes_of_string :: "string \<Rightarrow> byte list" where
  "bytes_of_string s = map (\<lambda>c. of_nat (of_char c)) s"

definition string_of_bytes :: "byte list \<Rightarrow> string" where
  "string_of_bytes b = map (\<lambda>w. char_of (unat w)) b"

text \<open>Errors of \<open>strconv.ParseUint\<close> (the \<open>Err\<close> field of its \<open>*NumError\<close>).\<close>

datatype num_error = ErrSyntax | ErrRange

text \<open>
  Every \<open>fmt.Errorf\<close> of the source is one constructor, carrying the values the message
  formats. \<open>CorruptInputError\<close> is the error of \<open>encoding/base64\<close> (its offset is left
  out), \<open>ErrExternal\<close> an error value handed in by the random source or the identifier
  generator.
\<close>

datatype error =
    ErrMissingAlgName string
  | ErrBadAlgString string
  | ErrBadTimes string num_error
  | ErrTimeTooLarge string
  | ErrTimeTooSmall string
  | ErrBadMemorySuffix string
  | ErrBadMemory string num_error
  | ErrMemoryTooLarge string
  | ErrMemoryTooSmall string
  | ErrBadKeyLength string num_error
  | ErrKeyLengthTooLarge string
  | ErrKeyLengthTooSmall string
  | CorruptInputError
  | ErrNumParts nat nat
  | ErrOuterStructure
  | ErrInsufficientSalt
  | ErrInsufficientPassword
  | ErrExternal string

record ParamsArgon2ID =
  Time :: "32 word"
  Memory :: "32 word"
  KeyLen :: "32 word"

text \<open>\<open>Alg\<close> embeds \<open>ParamsArgon2ID\<close>: the record extends it with the descriptor text.\<close>

record Alg = ParamsArgon2ID +
  String :: string

definition Alg_zero :: Alg where
  "Alg_zero = \<lparr>Time = 0, Memory = 0, KeyLen = 0, String = []\<rparr>"

section \<open>The string functions of the standard library that the source calls\<close>

definition HasPrefix :: "string \<Rightarrow> string \<Rightarrow> bool" where
  "HasPrefix s p = (length s \<ge> length p \<and> take (length p) s = p)"

definition HasSuffix :: "string \<Rightarrow> string \<Rightarrow> bool" where
  "HasSuffix s suf = (length s \<ge> length suf \<and> drop (length s - length suf) s = suf)"

text \<open>\<open>strings.Index\<close>: the offset of the first occurrence of \<open>sep\<close>, if any.\<close>

fun Index :: "string \<Rightarrow> string \<Rightarrow> nat option" where
  "Index [] sep = (if sep = [] then Some 0 else None)"
| "Index (c # cs) sep =
     (if HasPrefix (c # cs) sep then Some 0
      else map_option Suc (Index cs sep))"

text \<open>
  \<open>strings.SplitN s sep n\<close> for a count \<open>n \<ge> 0\<close> and a non-empty separator (the source
  passes the constants 3, 4 and 6 and one-character separators): at most \<open>n\<close> pieces,
  the last one the unsplit remainder; no piece at all for \<open>n = 0\<close>.
\<close>

fun SplitN :: "string \<Rightarrow> string \<Rightarrow> nat \<Rightarrow> string list" where
  "SplitN s sep 0 = []"
| "SplitN s sep (Suc 0) = [s]"
| "SplitN s sep (Suc (Suc n)) =
     (case Index s sep of
        None \<Rightarrow> [s]
      | Some m \<Rightarrow> take m s # SplitN (drop (m + length sep) s) sep (Suc n))"

fun Join :: "string list \<Rightarrow> string \<Rightarrow> string" where
  "Join [] sep = []"
| "Join [x] sep = x"
| "Join (x # y # ys) sep = x @ sep @ Join (y # ys) sep"

definition is_digit :: "char \<Rightarrow> bool" where
  "is_digit c = ((of_char CHR ''0'' :: nat) \<le> of_char c \<and> (of_char c :: nat) \<le> of_char CHR ''9'')"

text \<open>
  The digit loop of \<open>strconv.ParseUint s 10 32\<close>: left to right, a byte that is no
  decimal digit is a syntax error, a value above \<open>2^32 - 1\<close> a range error, whichever
  comes first. The accumulator never exceeds \<open>2^32 - 1\<close> on entry, so the 64-bit
  multiplication of the library cannot overflow and natural numbers compute the same.
\<close>

fun parse_digits :: "nat \<Rightarrow> string \<Rightarrow> num_error + nat" where
  "parse_digits acc [] = Inr acc"
| "parse_digits acc (c # cs) =
     (if \<not> is_digit c then Inl ErrSyntax
      else let n1 = acc * 10 + (of_char c - of_char CHR ''0'')
           in if n1 > 2 ^ 32 - 1 then Inl ErrRange else parse_digits n1 cs)"

definition ParseUint32 :: "string \<Rightarrow> num_error + 64 word" where
  "ParseUint32 s =
     (if s = [] then Inl ErrSyntax
      else case parse_digits 0 s of Inl e \<Rightarrow> Inl e | Inr n \<Rightarrow> Inr (of_nat n))"

section \<open>algparams.go\<close>

definition space :: string where "space = '' ''"
definition algParts :: nat where "algParts = 3"
definition memSuffix :: string where "memSuffix = ''MB''"
definition maxKeyLength :: nat where "maxKeyLength = 64"
definition minKeyLength :: nat where "minKeyLength = 16"
definition maxMem :: nat where "maxMem = 64"
definition minMem :: nat where "minMem = 16"
definition maxTime :: nat where "maxTime = 5"
definition minTime :: nat where "minTime = 1"
definition argon2idAlgID :: string where "argon2idAlgID = ''argon2id:''"

text \<open>
  \<open>ParseAlg\<close> returns \<open>Alg{}\<close> beside every error; the model returns the error alone.
  The three indexings \<open>parts[0]\<close>, \<open>parts[1]\<close>, \<open>parts[2]\<close> follow the check
  \<open>len(parts) != 3\<close>, which the list pattern expresses.
\<close>

definition ParseAlg :: "string \<Rightarrow> error + Alg" where
  "ParseAlg alg0 =
     (if \<not> HasPrefix alg0 argon2idAlgID then Inl (ErrMissingAlgName alg0)
      else
        let alg1 = drop (length argon2idAlgID) alg0 in
        case SplitN alg1 space algParts of
          [p0, p1, p2] \<Rightarrow>
            (case ParseUint32 p0 of
               Inl e \<Rightarrow> Inl (ErrBadTimes p0 e)
             | Inr u0 \<Rightarrow>
                 let time = (ucast u0 :: 32 word) in
                 if time > of_nat maxTime then Inl (ErrTimeTooLarge p0)
                 else if time < of_nat minTime then Inl (ErrTimeTooSmall p0)
                 else if \<not> HasSuffix p1 memSuffix then Inl (ErrBadMemorySuffix p1)
                 else
                   (case ParseUint32 (take (length p1 - length memSuffix) p1) of
                      Inl e \<Rightarrow> Inl (ErrBadMemory p1 e)
                    | Inr u1 \<Rightarrow>
                        let memory = (ucast u1 :: 32 word) in
                        if memory > of_nat maxMem then Inl (ErrMemoryTooLarge p1)
                        else if memory < of_nat minMem then Inl (ErrMemoryTooSmall p1)
                        else
                          (case ParseUint32 p2 of
                             Inl e \<Rightarrow> Inl (ErrBadKeyLength p2 e)
                           | Inr u2 \<Rightarrow>
                               if u2 > of_nat maxKeyLength then Inl (ErrKeyLengthTooLarge p2)
                               else
                                 let keyLen = (ucast u2 :: 32 word) in
                                 if keyLen < of_nat minKeyLength
                                 then Inl (ErrKeyLengthTooSmall p2)
                                 else Inr \<lparr>Time = time, Memory = memory, KeyLen = keyLen,
                                           String = alg0\<rparr>)))
        | _ \<Rightarrow> Inl (ErrBadAlgString alg1))"

section \<open>encoding/base64, URL alphabet with padding\<close>

text \<open>
  \<open>base64.URLEncoding\<close> is the alphabet of RFC 4648, section 5, with \<open>=\<close> padding.
  The library builds its decoding table from the alphabet; \<open>dec6\<close> looks the
  character up in it.
\<close>

definition encodeURL :: string where
  "encodeURL = ''ABCDEFGHIJKLMNOPQRSTUVWXYZabcdefghijklmnopqrstuvwxyz0123456789-_''"

definition padChar :: char where
  "padChar = CHR ''=''"

definition enc6 :: "nat \<Rightarrow> char" where
  "enc6 d = encodeURL ! d"

fun index_of :: "char \<Rightarrow> string \<Rightarrow> nat option" where
  "index_of c [] = None"
| "index_of c (x # xs) = (if c = x then Some 0 else map_option Suc (index_of c xs))"

definition dec6 :: "char \<Rightarrow> nat option" where
  "dec6 c = index_of c encodeURL"

text \<open>Three bytes become four characters; one or two remaining bytes are padded.\<close>

fun EncodeToString :: "byte list \<Rightarrow> string" where
  "EncodeToString [] = []"
| "EncodeToString [a] =
     [enc6 (unat a div 4), enc6 (unat a mod 4 * 16), padChar, padChar]"
| "EncodeToString [a, b] =
     [enc6 (unat a div 4), enc6 (unat a mod 4 * 16 + unat b div 16),
      enc6 (unat b mod 16 * 4), padChar]"
| "EncodeToString (a # b # c # rest) =
     [enc6 (unat a div 4), enc6 (unat a mod 4 * 16 + unat b div 16),
      enc6 (unat b mod 16 * 4 + unat c div 64), enc6 (unat c mod 64)]
     @ EncodeToString rest"

definition quantum3 :: "char \<Rightarrow> char \<Rightarrow> char \<Rightarrow> char \<Rightarrow> byte list option" where
  "quantum3 c1 c2 c3 c4 =
     (case (dec6 c1, dec6 c2, dec6 c3, dec6 c4) of
        (Some d1, Some d2, Some d3, Some d4) \<Rightarrow>
          Some [of_nat (d1 * 4 + d2 div 16), of_nat (d2 mod 16 * 16 + d3 div 4),
                of_nat (d3 mod 4 * 64 + d4)]
      | _ \<Rightarrow> None)"

definition quantum2 :: "char \<Rightarrow> char \<Rightarrow> char \<Rightarrow> byte list option" where
  "quantum2 c1 c2 c3 =
     (case (dec6 c1, dec6 c2, dec6 c3) of
        (Some d1, Some d2, Some d3) \<Rightarrow>
          Some [of_nat (d1 * 4 + d2 div 16), of_nat (d2 mod 16 * 16 + d3 div 4)]
      | _ \<Rightarrow> None)"

definition quantum1 :: "char \<Rightarrow> char \<Rightarrow> byte list option" where
  "quantum1 c1 c2 =
     (case (dec6 c1, dec6 c2) of
        (Some d1, Some d2) \<Rightarrow> Some [of_nat (d1 * 4 + d2 div 16)]
      | _ \<Rightarrow> None)"

text \<open>
  The decoder reads quanta of four characters. Padding may stand in the last quantum
  only (\<open>xx==\<close> or \<open>xxx=\<close>); the encoding is not strict, so the unused low bits of the
  last character are not checked. Anything else is a \<open>CorruptInputError\<close>.
\<close>

fun decode_quanta :: "string \<Rightarrow> error + byte list" where
  "decode_quanta [] = Inr []"
| "decode_quanta [c1, c2, c3, c4] =
     (case (if c3 = padChar \<and> c4 = padChar then quantum1 c1 c2
            else if c4 = padChar then quantum2 c1 c2 c3
            else quantum3 c1 c2 c3 c4) of
        None \<Rightarrow> Inl CorruptInputError
      | Some bs \<Rightarrow> Inr bs)"
| "decode_quanta (c1 # c2 # c3 # c4 # rest) =
     (case quantum3 c1 c2 c3 c4 of
        None \<Rightarrow> Inl CorruptInputError
      | Some bs \<Rightarrow>
          (case decode_quanta rest of
             Inl e \<Rightarrow> Inl e
           | Inr bs' \<Rightarrow> Inr (bs @ bs')))"
| "decode_quanta cs = Inl CorruptInputError"

text \<open>\<open>DecodeString\<close> ignores carriage returns and line feeds wherever they stand.\<close>

definition DecodeString :: "string \<Rightarrow> error + byte list" where
  "DecodeString s =
     decode_quanta (filter (\<lambda>c. c \<noteq> CHR 0x0D \<and> c \<noteq> CHR 0x0A) s)"

section \<open>argon2id.go (package keys): the five-field layout\<close>

definition StandardAlg :: string where "StandardAlg = ''argon2id:3 64MB 32''"
definition saltLen :: nat where "saltLen = 32"
definition passwordLen :: nat where "passwordLen = 32"
definition apiKeyNameLen :: nat where "apiKeyNameLen = 16"
definition argon2Threads :: "8 word" where "argon2Threads = 1"
definition defaultClientNanoIDLen :: nat where "defaultClientNanoIDLen = 16"
definition apiKeyNumParts :: nat where "apiKeyNumParts = 5"
definition apiKeyDisplayNamePrefixPart :: nat where "apiKeyDisplayNamePrefixPart = 0"
definition apiKeyIDPart :: nat where "apiKeyIDPart = 1"
definition apiKeyAlgPart :: nat where "apiKeyAlgPart = 2"
definition apiKeySaltPart :: nat where "apiKeySaltPart = 3"
definition apiKeyPasswordPart :: nat where "apiKeyPasswordPart = 4"

record Key =
  alg :: Alg
  Salt :: "byte list"
  DerivedKey :: "byte list"
  ClientID :: string
  DisplayName :: string

definition Key_zero :: Key where
  "Key_zero = \<lparr>alg = Alg_zero, Salt = [], DerivedKey = [], ClientID = [], DisplayName = []\<rparr>"

text \<open>A \<open>KeyOption\<close> is a function that updates the key it is given.\<close>

type_synonym KeyOption = "Key \<Rightarrow> Key"

definition WithClientID :: "string \<Rightarrow> KeyOption" where
  "WithClientID clientID = (\<lambda>ak. ak\<lparr>ClientID := clientID\<rparr>)"

definition WithDisplayName :: "string \<Rightarrow> KeyOption" where
  "WithDisplayName name = (\<lambda>ak. ak\<lparr>DisplayName := name\<rparr>)"

text \<open>
  The collaborators are parameters. \<open>nanoid.ID\<close> returns a string and an error;
  \<open>argon2.IDKey\<close> takes password, salt, time, memory, threads and key length;
  \<open>rand.Read\<close> is a step on the state of the random source that returns the bytes it
  wrote, its count and its error. \<open>argon2.IDKey\<close> panics on a time cost of 0; the
  theorems about calls of it take a key whose algorithm is a parsed descriptor, whose
  time cost is at least 1.
\<close>

type_synonym idgen = "nat \<Rightarrow> string \<times> error option"

type_synonym kdf =
  "byte list \<Rightarrow> byte list \<Rightarrow> 32 word \<Rightarrow> 32 word \<Rightarrow> 8 word \<Rightarrow> 32 word \<Rightarrow> byte list"

record read_result =
  rr_data :: "byte list"
  rr_n :: int
  rr_err :: "error option"

type_synonym 'r reader = "'r \<Rightarrow> nat \<Rightarrow> read_result \<times> 'r"

text \<open>
  \<open>SetOptions\<close> has a pointer receiver: the model returns the key as the call leaves
  it, beside the error. A failed \<open>ParseAlg\<close> has stored \<open>Alg{}\<close> in the key.
\<close>

definition SetOptions :: "idgen \<Rightarrow> Key \<Rightarrow> string \<Rightarrow> KeyOption list \<Rightarrow> Key \<times> error option" where
  "SetOptions nanoid_ID ak0 algtext opts =
     (case ParseAlg algtext of
        Inl e \<Rightarrow> (ak0\<lparr>alg := Alg_zero\<rparr>, Some e)
      | Inr a \<Rightarrow>
          let ak1 = foldl (\<lambda>ak opt. opt ak) (ak0\<lparr>alg := a\<rparr>) opts in
          if length (ClientID ak1) = 0 then
            (case nanoid_ID defaultClientNanoIDLen of
               (ident, err) \<Rightarrow>
                 let ak2 = ak1\<lparr>ClientID := ident\<rparr> in
                 if err \<noteq> None then (ak2, None) else (ak2, None))
          else (ak1, None))"

definition NewKey :: "idgen \<Rightarrow> string \<Rightarrow> KeyOption list \<Rightarrow> Key \<times> error option" where
  "NewKey nanoid_ID algtext opts = SetOptions nanoid_ID Key_zero algtext opts"

definition Decode :: "string \<Rightarrow> error + (Key \<times> byte list)" where
  "Decode apikey =
     (case DecodeString apikey of
        Inl e \<Rightarrow> Inl e
      | Inr b \<Rightarrow>
          let parts = SplitN (string_of_bytes b) ''.'' (apiKeyNumParts + 1) in
          if length parts \<noteq> apiKeyNumParts
          then Inl (ErrNumParts (length parts) apiKeyNumParts)
          else
            (case ParseAlg (parts ! apiKeyAlgPart) of
               Inl e \<Rightarrow> Inl e
             | Inr a \<Rightarrow>
                 let ak = Key_zero\<lparr>alg := a,
                            DisplayName := parts ! apiKeyDisplayNamePrefixPart,
                            ClientID := parts ! apiKeyIDPart\<rparr> in
                 (case DecodeString (parts ! apiKeySaltPart) of
                    Inl e \<Rightarrow> Inl e
                  | Inr salt \<Rightarrow>
                      (case DecodeString (parts ! apiKeyPasswordPart) of
                         Inl e \<Rightarrow> Inl e
                       | Inr password \<Rightarrow> Inr (ak\<lparr>Salt := salt\<rparr>, password)))))"

definition RecoverKey :: "kdf \<Rightarrow> Key \<Rightarrow> byte list \<Rightarrow> byte list" where
  "RecoverKey IDKey ak password =
     IDKey password (Salt ak) (Time (alg ak)) (Memory (alg ak)) argon2Threads (KeyLen (alg ak))"

text \<open>
  \<open>MatchPassword\<close> has a pointer receiver and assigns to \<open>ak.DerivedKey\<close>: the model
  returns the key as the call leaves it, beside the result of \<open>bytes.Equal\<close>.
\<close>

definition MatchPassword :: "kdf \<Rightarrow> Key \<Rightarrow> byte list \<Rightarrow> byte list \<Rightarrow> Key \<times> bool" where
  "MatchPassword IDKey ak password key =
     (let ak1 = ak\<lparr>DerivedKey := RecoverKey IDKey ak password\<rparr>
      in (ak1, DerivedKey ak1 = key))"

definition EncodedKey :: "Key \<Rightarrow> string" where
  "EncodedKey ak = EncodeToString (DerivedKey ak)"

text \<open>
  \<open>make([]byte, n)\<close> is \<open>n\<close> zero bytes; a read overwrites a prefix of the buffer and
  never changes its length.
\<close>

definition make_bytes :: "nat \<Rightarrow> byte list" where
  "make_bytes n = replicate n 0"

definition read_into :: "byte list \<Rightarrow> byte list \<Rightarrow> byte list" where
  "read_into buf written = take (length buf) written @ drop (length written) buf"

definition generatePasword ::
    "'r reader \<Rightarrow> kdf \<Rightarrow> 'r \<Rightarrow> Key \<Rightarrow> (error + byte list) \<times> Key \<times> 'r" where
  "generatePasword rand_Read IDKey r0 ak0 =
     (case rand_Read r0 saltLen of
        (res1, r1) \<Rightarrow>
          let ak1 = ak0\<lparr>Salt := read_into (make_bytes saltLen) (rr_data res1)\<rparr> in
          (case rr_err res1 of
             Some e \<Rightarrow> (Inl e, ak1, r1)
           | None \<Rightarrow>
               if rr_n res1 \<noteq> int saltLen then (Inl ErrInsufficientSalt, ak1, r1)
               else
                 (case rand_Read r1 passwordLen of
                    (res2, r2) \<Rightarrow>
                      let password = read_into (make_bytes passwordLen) (rr_data res2) in
                      (case rr_err res2 of
                         Some e \<Rightarrow> (Inl e, ak1, r2)
                       | None \<Rightarrow>
                           if rr_n res2 \<noteq> int passwordLen
                           then (Inl ErrInsufficientPassword, ak1, r2)
                           else
                             (Inr password,
                              ak1\<lparr>DerivedKey :=
                                    IDKey password (Salt ak1) (Time (alg ak1)) (Memory (alg ak1))
                                      argon2Threads (KeyLen (alg ak1))\<rparr>,
                              r2)))))"

text \<open>\<open>Generate\<close> returns the empty string beside an error; the model returns the error.\<close>

definition Generate ::
    "'r reader \<Rightarrow> kdf \<Rightarrow> 'r \<Rightarrow> Key \<Rightarrow> (error + string) \<times> Key \<times> 'r" where
  "Generate rand_Read IDKey r0 ak0 =
     (case generatePasword rand_Read IDKey r0 ak0 of
        (Inl e, ak1, r1) \<Rightarrow> (Inl e, ak1, r1)
      | (Inr password, ak1, r1) \<Rightarrow>
          let salt = EncodeToString (Salt ak1);
              secret = EncodeToString password;
              name = (if length (DisplayName ak1) > apiKeyNameLen
                      then take apiKeyNameLen (DisplayName ak1)
                      else DisplayName ak1);
              s = Join [name, ClientID ak1, String (alg ak1), salt, secret] ''.''
          in (Inr (EncodeToString (bytes_of_string s)), ak1, r1))"

section \<open>The three-field layout (package apikeys, client id before a colon)\<close>

definition defaultClientNanoIDLen_basic :: nat where "defaultClientNanoIDLen_basic = 21"
definition apiKeySecretParts :: nat where "apiKeySecretParts = 3"
definition apiKeyAlgPart_basic :: nat where "apiKeyAlgPart_basic = 0"
definition apiKeySaltPart_basic :: nat where "apiKeySaltPart_basic = 1"
definition apiKeyPasswordPart_basic :: nat where "apiKeyPasswordPart_basic = 2"

record Key_basic =
  alg_basic :: Alg
  Salt_basic :: "byte list"
  DerivedKey_basic :: "byte list"
  ClientID_basic :: string

definition Key_basic_zero :: Key_basic where
  "Key_basic_zero = \<lparr>alg_basic = Alg_zero, Salt_basic = [], DerivedKey_basic = [], ClientID_basic = []\<rparr>"

definition WithClientID_basic :: "string \<Rightarrow> Key_basic \<Rightarrow> Key_basic" where
  "WithClientID_basic clientID = (\<lambda>ak. ak\<lparr>ClientID_basic := clientID\<rparr>)"

definition SetOptions_basic ::
    "idgen \<Rightarrow> Key_basic \<Rightarrow> string \<Rightarrow> (Key_basic \<Rightarrow> Key_basic) list \<Rightarrow> Key_basic \<times> error option" where
  "SetOptions_basic nanoid_ID ak0 algtext opts =
     (case ParseAlg algtext of
        Inl e \<Rightarrow> (ak0\<lparr>alg_basic := Alg_zero\<rparr>, Some e)
      | Inr a \<Rightarrow>
          let ak1 = foldl (\<lambda>ak opt. opt ak) (ak0\<lparr>alg_basic := a\<rparr>) opts in
          if length (ClientID_basic ak1) = 0 then
            (case nanoid_ID defaultClientNanoIDLen_basic of
               (ident, err) \<Rightarrow>
                 let ak2 = ak1\<lparr>ClientID_basic := ident\<rparr> in
                 if err \<noteq> None then (ak2, None) else (ak2, None))
          else (ak1, None))"

text \<open>
  A run either returns or panics. Indexing a slice out of range panics with the index
  and the length.
\<close>

datatype 'a outcome = Panic_index_out_of_range nat nat | Returns 'a

definition index_slice :: "'a list \<Rightarrow> nat \<Rightarrow> 'a outcome" where
  "index_slice xs i =
     (if i < length xs then Returns (xs ! i) else Panic_index_out_of_range i (length xs))"

definition Decode_basic :: "string \<Rightarrow> (error + (Key_basic \<times> byte list)) outcome" where
  "Decode_basic apikey =
     (case DecodeString apikey of
        Inl e \<Rightarrow> Returns (Inl e)
      | Inr b \<Rightarrow>
          let parts = SplitN (string_of_bytes b) '':'' 3 in
          if length parts > 2 then Returns (Inl ErrOuterStructure)
          else
            (case index_slice parts 0 of
               Panic_index_out_of_range i n \<Rightarrow> Panic_index_out_of_range i n
             | Returns p0 \<Rightarrow>
                 let ak = Key_basic_zero\<lparr>ClientID_basic := p0\<rparr> in
                 (case index_slice parts 1 of
                    Panic_index_out_of_range i n \<Rightarrow> Panic_index_out_of_range i n
                  | Returns p1 \<Rightarrow>
                      let parts2 = SplitN p1 ''.'' (apiKeySecretParts + 1) in
                      if length parts2 \<noteq> apiKeySecretParts
                      then Returns (Inl (ErrNumParts (length parts2) apiKeySecretParts))
                      else
                        (case ParseAlg (parts2 ! apiKeyAlgPart_basic) of
                           Inl e \<Rightarrow> Returns (Inl e)
                         | Inr a \<Rightarrow>
                             (case DecodeString (parts2 ! apiKeySaltPart_basic) of
                                Inl e \<Rightarrow> Returns (Inl e)
                              | Inr salt \<Rightarrow>
                                  (case DecodeString (parts2 ! apiKeyPasswordPart_basic) of
                                     Inl e \<Rightarrow> Returns (Inl e)
                                   | Inr password \<Rightarrow>
                                       Returns (Inr (ak\<lparr>alg_basic := a, Salt_basic := salt\<rparr>,
                                                     password))))))))"

section \<open>Facts about the string functions\<close>

lemma HasPrefix_append: "HasPrefix s p \<Longrightarrow> s = p @ drop (length p) s"
  by (metis HasPrefix_def append_take_drop_id)

lemma HasSuffix_append: "HasSuffix s suf \<Longrightarrow> s = take (length s - length suf) s @ suf"
  by (metis HasSuffix_def append_take_drop_id)

lemma Index_Some_split:
  "Index s sep = Some m \<Longrightarrow> s = take m s @ sep @ drop (m + length sep) s"
proof (induction s arbitrary: m)
  case Nil
  then show ?case by (simp split: if_splits)
next
  case (Cons c cs)
  show ?case
  proof (cases "HasPrefix (c # cs) sep")
    case True
    with Cons.prems have "m = 0" by simp
    with True show ?thesis using HasPrefix_append [of "c # cs" sep] by simp
  next
    case False
    with Cons.prems obtain k where k: "Index cs sep = Some k" "m = Suc k" by auto
    from Cons.IH [OF k(1)] k(2) show ?thesis by simp
  qed
qed

lemma Join_SplitN: "0 < n \<Longrightarrow> Join (SplitN s sep n) sep = s"
proof (induction s sep n rule: SplitN.induct)
  case (3 s sep n)
  show ?case
  proof (cases "Index s sep")
    case None
    then show ?thesis by simp
  next
    case (Some m)
    have "SplitN (drop (m + length sep) s) sep (Suc n) \<noteq> []"
      by (cases n) (simp_all split: option.splits)
    then obtain y ys where y: "SplitN (drop (m + length sep) s) sep (Suc n) = y # ys"
      by (cases "SplitN (drop (m + length sep) s) sep (Suc n)") auto
    from "3.IH" [OF Some] have "Join (SplitN (drop (m + length sep) s) sep (Suc n)) sep = drop (m + length sep) s"
      by simp
    with y Some Index_Some_split [OF Some] show ?thesis by simp
  qed
qed simp_all

lemma SplitN_3_concat:
  "SplitN s sep (Suc (Suc (Suc 0))) = [p0, p1, p2] \<Longrightarrow> s = p0 @ sep @ p1 @ sep @ p2"
  using Join_SplitN [of "Suc (Suc (Suc 0))" s sep] by simp

section \<open>Facts about the base64 codec\<close>

lemma length_encodeURL: "length encodeURL = 64"
  by (simp add: encodeURL_def)

lemma distinct_encodeURL: "distinct encodeURL"
  by (simp add: encodeURL_def)

lemma index_of_nth:
  "distinct xs \<Longrightarrow> i < length xs \<Longrightarrow> index_of (xs ! i) xs = Some i"
proof (induction xs arbitrary: i)
  case Nil
  then show ?case by simp
next
  case (Cons x xs)
  show ?case
  proof (cases i)
    case 0
    then show ?thesis by simp
  next
    case (Suc j)
    with Cons.prems have "xs ! j \<in> set xs" "x \<notin> set xs" by auto
    then have "xs ! j \<noteq> x" by auto
    with Suc Cons show ?thesis by simp
  qed
qed

lemma dec6_enc6: "d < 64 \<Longrightarrow> dec6 (enc6 d) = Some d"
  by (simp add: dec6_def enc6_def index_of_nth distinct_encodeURL length_encodeURL)

lemma enc6_in_alphabet: "d < 64 \<Longrightarrow> enc6 d \<in> set encodeURL"
  by (simp add: enc6_def length_encodeURL)

lemma padChar_not_in_alphabet: "padChar \<notin> set encodeURL"
  by (simp add: encodeURL_def padChar_def)

lemma newlines_not_in_alphabet:
  "CHR 0x0D \<notin> set encodeURL" "CHR 0x0A \<notin> set encodeURL"
  by (simp_all add: encodeURL_def)

lemma separators_not_in_alphabet:
  "CHR ''.'' \<notin> set encodeURL" "CHR '':'' \<notin> set encodeURL"
  by (simp_all add: encodeURL_def)

lemma enc6_not_pad: "d < 64 \<Longrightarrow> enc6 d \<noteq> padChar"
  using enc6_in_alphabet padChar_not_in_alphabet by metis

lemma div_mod_digit:
  fixes q r n :: nat
  assumes "q < n"
  shows "(r * n + q) div n = r" "(r * n + q) mod n = q"
  using assms by simp_all

lemma sextets:
  fixes x y z :: nat
  assumes "x < 256" "y < 256" "z < 256"
  shows "x div 4 < 64" "x mod 4 * 16 + y div 16 < 64" "y mod 16 * 4 + z div 64 < 64"
        "z mod 64 < 64" "x mod 4 * 16 < 64" "y mod 16 * 4 < 64"
proof -
  have a: "x mod 4 < 4" "y mod 16 < 16" by simp_all
  have b: "y div 16 < 16" "z div 64 < 4" "x div 4 < 64"
    using assms by (simp_all add: less_mult_imp_div_less)
  show "x div 4 < 64" by (rule b(3))
  show "x mod 4 * 16 + y div 16 < 64" using a(1) b(1) by linarith
  show "y mod 16 * 4 + z div 64 < 64" using a(2) b(2) by linarith
  show "z mod 64 < 64" by simp
  show "x mod 4 * 16 < 64" using a(1) by linarith
  show "y mod 16 * 4 < 64" using a(2) by linarith
qed

lemma rejoin:
  fixes x y z :: nat
  assumes "x < 256" "y < 256" "z < 256"
  shows "x div 4 * 4 + (x mod 4 * 16 + y div 16) div 16 = x"
        "(x mod 4 * 16 + y div 16) mod 16 * 16 + (y mod 16 * 4 + z div 64) div 4 = y"
        "(y mod 16 * 4 + z div 64) mod 4 * 64 + z mod 64 = z"
        "x div 4 * 4 + (x mod 4 * 16) div 16 = x"
        "(x mod 4 * 16 + y div 16) mod 16 * 16 + (y mod 16 * 4) div 4 = y"
proof -
  have b: "y div 16 < 16" "z div 64 < 4"
    using assms by (simp_all add: less_mult_imp_div_less)
  show "x div 4 * 4 + (x mod 4 * 16 + y div 16) div 16 = x"
    by (simp only: div_mod_digit(1) [OF b(1)] div_mult_mod_eq)
  show "(x mod 4 * 16 + y div 16) mod 16 * 16 + (y mod 16 * 4 + z div 64) div 4 = y"
    by (simp only: div_mod_digit(2) [OF b(1)] div_mod_digit(1) [OF b(2)] div_mult_mod_eq)
  show "(y mod 16 * 4 + z div 64) mod 4 * 64 + z mod 64 = z"
    by (simp only: div_mod_digit(2) [OF b(2)] div_mult_mod_eq)
  show "x div 4 * 4 + (x mod 4 * 16) div 16 = x"
    by simp
  show "(x mod 4 * 16 + y div 16) mod 16 * 16 + (y mod 16 * 4) div 4 = y"
    by (simp only: div_mod_digit(2) [OF b(1)]) simp
qed

lemma unat_byte_less: "unat (a :: byte) < 256"
  using unsigned_less [of a, where ?'a = nat] by simp

lemma quantum3_enc:
  "quantum3 (enc6 (unat a div 4)) (enc6 (unat a mod 4 * 16 + unat b div 16))
            (enc6 (unat b mod 16 * 4 + unat c div 64)) (enc6 (unat c mod 64)) = Some [a, b, c]"
  using sextets [OF unat_byte_less [of a] unat_byte_less [of b] unat_byte_less [of c]]
        rejoin [OF unat_byte_less [of a] unat_byte_less [of b] unat_byte_less [of c]]
  by (simp add: quantum3_def dec6_enc6)

lemma quantum2_enc:
  "quantum2 (enc6 (unat a div 4)) (enc6 (unat a mod 4 * 16 + unat b div 16))
            (enc6 (unat b mod 16 * 4)) = Some [a, b]"
  using sextets [OF unat_byte_less [of a] unat_byte_less [of b] unat_byte_less [of b]]
        rejoin [OF unat_byte_less [of a] unat_byte_less [of b] unat_byte_less [of b]]
  by (simp add: quantum2_def dec6_enc6)

lemma quantum1_enc:
  "quantum1 (enc6 (unat a div 4)) (enc6 (unat a mod 4 * 16)) = Some [a]"
  using sextets [OF unat_byte_less [of a] unat_byte_less [of a] unat_byte_less [of a]]
        rejoin [OF unat_byte_less [of a] unat_byte_less [of a] unat_byte_less [of a]]
  by (simp add: quantum1_def dec6_enc6)

lemma decode_quanta_step:
  "c4 \<noteq> padChar \<Longrightarrow>
   decode_quanta (c1 # c2 # c3 # c4 # rest) =
     (case quantum3 c1 c2 c3 c4 of
        None \<Rightarrow> Inl CorruptInputError
      | Some bs \<Rightarrow> (case decode_quanta rest of Inl e \<Rightarrow> Inl e | Inr bs' \<Rightarrow> Inr (bs @ bs')))"
  by (cases rest) (simp_all split: option.splits)

lemma decode_quanta_EncodeToString: "decode_quanta (EncodeToString bs) = Inr bs"
proof (induction bs rule: EncodeToString.induct)
  case 1
  show ?case by simp
next
  case (2 a)
  show ?case by (simp add: quantum1_enc)
next
  case (3 a b)
  have "enc6 (unat b mod 16 * 4) \<noteq> padChar"
    using sextets(6) [OF unat_byte_less [of a] unat_byte_less [of b] unat_byte_less [of b]]
    by (rule enc6_not_pad)
  then show ?case by (simp add: quantum2_enc)
next
  case (4 a b c rest)
  have "enc6 (unat c mod 64) \<noteq> padChar"
    by (rule enc6_not_pad) simp
  then show ?case
    using "4.IH" by (simp add: decode_quanta_step quantum3_enc)
qed

lemma set_EncodeToString: "set (EncodeToString bs) \<subseteq> insert padChar (set encodeURL)"
proof (induction bs rule: EncodeToString.induct)
  case 1
  show ?case by simp
next
  case (2 a)
  show ?case
    using sextets [OF unat_byte_less [of a] unat_byte_less [of a] unat_byte_less [of a]]
    by (simp add: enc6_in_alphabet)
next
  case (3 a b)
  show ?case
    using sextets [OF unat_byte_less [of a] unat_byte_less [of b] unat_byte_less [of b]]
    by (simp add: enc6_in_alphabet)
next
  case (4 a b c rest)
  show ?case
    using sextets [OF unat_byte_less [of a] unat_byte_less [of b] unat_byte_less [of c]] "4.IH"
    by (simp add: enc6_in_alphabet)
qed

lemma DecodeString_EncodeToString: "DecodeString (EncodeToString bs) = Inr bs"
proof -
  have "\<forall>c \<in> set (EncodeToString bs). c \<noteq> CHR 0x0D \<and> c \<noteq> CHR 0x0A"
    using set_EncodeToString [of bs] newlines_not_in_alphabet
    by (auto simp: padChar_def)
  then have "filter (\<lambda>c. c \<noteq> CHR 0x0D \<and> c \<noteq> CHR 0x0A) (EncodeToString bs)
             = EncodeToString bs"
    by (simp add: filter_id_conv)
  then show ?thesis
    by (simp add: DecodeString_def decode_quanta_EncodeToString)
qed

lemma string_of_bytes_of_string: "string_of_bytes (bytes_of_string s) = s"
proof -
  have "char_of (unat (of_nat (of_char c) :: byte)) = c" for c :: char
    by (simp add: unat_of_nat)
  then show ?thesis
    by (simp add: string_of_bytes_def bytes_of_string_def map_idI)
qed

lemma no_sep_in_EncodeToString:
  "CHR ''.'' \<notin> set (EncodeToString bs)"
  using set_EncodeToString [of bs] separators_not_in_alphabet
  by (auto simp: padChar_def)

section \<open>The algorithm descriptor\<close>

lemma parse_digits_bound:
  "parse_digits acc s = Inr n \<Longrightarrow> acc < 2 ^ 32 \<Longrightarrow> n < 2 ^ 32"
proof (induction s arbitrary: acc)
  case Nil
  then show ?case by simp
next
  case (Cons c cs)
  then show ?case by (auto simp: Let_def split: if_splits)
qed

lemma ParseUint32_Inr:
  "ParseUint32 s = Inr u \<Longrightarrow> \<exists>n. parse_digits 0 s = Inr n \<and> n < 2 ^ 32 \<and> u = of_nat n"
  by (auto simp: ParseUint32_def split: if_splits sum.splits dest: parse_digits_bound)

lemma ucast_of_nat_64_32: "(ucast (of_nat n :: 64 word) :: 32 word) = of_nat n"
  by (rule bit_word_eqI) (auto simp: bit_simps)

lemma unat_of_nat_32: "n < 2 ^ 32 \<Longrightarrow> unat (of_nat n :: 32 word) = n"
  by (simp add: unat_of_nat take_bit_nat_eq_self)

lemma unat_of_nat_64: "n < 2 ^ 32 \<Longrightarrow> unat (of_nat n :: 64 word) = n"
  by (simp add: unat_of_nat take_bit_nat_eq_self)

lemma algParts_Suc: "algParts = Suc (Suc (Suc 0))"
  by (simp add: algParts_def)

lemma word32_bounds:
  "n < 2 ^ 32 \<Longrightarrow> \<not> (of_nat n :: 32 word) > of_nat hi \<Longrightarrow> \<not> (of_nat n :: 32 word) < of_nat lo
    \<Longrightarrow> hi < 2 ^ 32 \<Longrightarrow> lo < 2 ^ 32 \<Longrightarrow> lo \<le> n \<and> n \<le> hi"
  by (simp add: word_less_nat_alt unat_of_nat_32 not_less)

lemma word64_upper:
  "n < 2 ^ 32 \<Longrightarrow> \<not> (of_nat n :: 64 word) > of_nat hi \<Longrightarrow> hi < 2 ^ 32 \<Longrightarrow> n \<le> hi"
  by (simp add: word_less_nat_alt unat_of_nat_64 not_less)

lemma ParseAlg_InrD:
  assumes "ParseAlg s = Inr a"
  shows "\<exists>p0 m p2 t mem k.
           s = argon2idAlgID @ p0 @ space @ m @ memSuffix @ space @ p2 \<and>
           parse_digits 0 p0 = Inr t \<and> parse_digits 0 m = Inr mem \<and> parse_digits 0 p2 = Inr k \<and>
           a = \<lparr>Time = of_nat t, Memory = of_nat mem, KeyLen = of_nat k, String = s\<rparr> \<and>
           minTime \<le> t \<and> t \<le> maxTime \<and> minMem \<le> mem \<and> mem \<le> maxMem \<and>
           minKeyLength \<le> k \<and> k \<le> maxKeyLength"
proof -
  from assms have pre: "HasPrefix s argon2idAlgID"
    by (auto simp: ParseAlg_def split: if_splits)
  define rest where "rest = drop (length argon2idAlgID) s"
  from assms pre obtain p0 p1 p2 where parts: "SplitN rest space algParts = [p0, p1, p2]"
    by (auto simp: ParseAlg_def Let_def rest_def split: list.splits)
  from assms pre parts obtain u0 where u0: "ParseUint32 p0 = Inr u0"
    by (auto simp: ParseAlg_def Let_def rest_def split: sum.splits)
  from assms pre parts u0 have
    t_hi: "\<not> (ucast u0 :: 32 word) > of_nat maxTime" and
    t_lo: "\<not> (ucast u0 :: 32 word) < of_nat minTime" and
    suf: "HasSuffix p1 memSuffix"
    by (auto simp: ParseAlg_def Let_def rest_def split: if_splits)
  define m where "m = take (length p1 - length memSuffix) p1"
  from assms pre parts u0 t_hi t_lo suf obtain u1 where u1: "ParseUint32 m = Inr u1"
    by (auto simp: ParseAlg_def Let_def rest_def m_def split: sum.splits)
  from assms pre parts u0 t_hi t_lo suf u1 have
    m_hi: "\<not> (ucast u1 :: 32 word) > of_nat maxMem" and
    m_lo: "\<not> (ucast u1 :: 32 word) < of_nat minMem"
    by (auto simp: ParseAlg_def Let_def rest_def m_def split: if_splits)
  from assms pre parts u0 t_hi t_lo suf u1 m_hi m_lo obtain u2 where u2: "ParseUint32 p2 = Inr u2"
    by (auto simp: ParseAlg_def Let_def rest_def m_def split: sum.splits)
  from assms pre parts u0 t_hi t_lo suf u1 m_hi m_lo u2 have
    k_hi: "\<not> u2 > of_nat maxKeyLength" and
    k_lo: "\<not> (ucast u2 :: 32 word) < of_nat minKeyLength" and
    a: "a = \<lparr>Time = ucast u0, Memory = ucast u1, KeyLen = ucast u2, String = s\<rparr>"
    by (auto simp: ParseAlg_def Let_def rest_def m_def split: if_splits)
  from ParseUint32_Inr [OF u0] obtain t where t: "parse_digits 0 p0 = Inr t" "t < 2 ^ 32" "u0 = of_nat t"
    by blast
  from ParseUint32_Inr [OF u1] obtain mem where mem: "parse_digits 0 m = Inr mem" "mem < 2 ^ 32" "u1 = of_nat mem"
    by blast
  from ParseUint32_Inr [OF u2] obtain k where k: "parse_digits 0 p2 = Inr k" "k < 2 ^ 32" "u2 = of_nat k"
    by blast
  have tb: "minTime \<le> t \<and> t \<le> maxTime"
    using t_hi t_lo t(2) unfolding t(3) ucast_of_nat_64_32
    by (intro word32_bounds) (simp_all add: maxTime_def minTime_def)
  have mb: "minMem \<le> mem \<and> mem \<le> maxMem"
    using m_hi m_lo mem(2) unfolding mem(3) ucast_of_nat_64_32
    by (intro word32_bounds) (simp_all add: maxMem_def minMem_def)
  have kb1: "k \<le> maxKeyLength"
    using k_hi k(2) unfolding k(3)
    by (intro word64_upper) (simp_all add: maxKeyLength_def)
  have kb2: "minKeyLength \<le> k"
  proof -
    have "\<not> (of_nat k :: 32 word) > of_nat k" by simp
    with k_lo k(2) have "minKeyLength \<le> k \<and> k \<le> k"
      unfolding k(3) ucast_of_nat_64_32
      by (intro word32_bounds) (simp_all add: minKeyLength_def)
    then show ?thesis by simp
  qed
  have s1: "s = argon2idAlgID @ rest"
    using HasPrefix_append [OF pre] by (simp add: rest_def)
  have s2: "rest = p0 @ space @ p1 @ space @ p2"
    using parts SplitN_3_concat by (simp add: algParts_Suc)
  have s3: "p1 = m @ memSuffix"
    using HasSuffix_append [OF suf] by (simp add: m_def)
  have "s = argon2idAlgID @ p0 @ space @ m @ memSuffix @ space @ p2"
    using s1 s2 s3 by simp
  moreover have "a = \<lparr>Time = of_nat t, Memory = of_nat mem, KeyLen = of_nat k, String = s\<rparr>"
    using a by (simp add: t(3) mem(3) k(3) ucast_of_nat_64_32)
  ultimately show ?thesis
    using t(1) mem(1) k(1) tb mb kb1 kb2 by blast
qed

lemmas ParseAlg_eval =
  ParseAlg_def HasPrefix_def HasSuffix_def argon2idAlgID_def space_def algParts_Suc
  memSuffix_def ParseUint32_def is_digit_def maxTime_def minTime_def maxMem_def minMem_def
  maxKeyLength_def minKeyLength_def Let_def

lemma ParseAlg_StandardAlg:
  "ParseAlg ''argon2id:3 64MB 32'' =
     Inr \<lparr>Time = 3, Memory = 64, KeyLen = 32, String = ''argon2id:3 64MB 32''\<rparr>"
  by (simp add: ParseAlg_eval)

lemma Generate_of_generatePasword:
  "generatePasword rd kdf r ak = (Inr password, ak', r') \<Longrightarrow>
   Generate rd kdf r ak =
     (Inr (EncodeToString (bytes_of_string
        (Join [take apiKeyNameLen (DisplayName ak'), ClientID ak', String (alg ak'),
               EncodeToString (Salt ak'), EncodeToString password] ''.''))), ak', r')"
  by (simp add: Generate_def Let_def)

lemma Generate_InrD:
  "Generate rd kdf r ak = (Inr apikey, ak', r') \<Longrightarrow>
   \<exists>password. generatePasword rd kdf r ak = (Inr password, ak', r')"
  by (auto simp: Generate_def Let_def split: prod.splits sum.splits)

text \<open>
  C6: whenever \<open>ParseAlg\<close> accepts a descriptor, the \<open>String\<close> field of the value it
  returns is the input text itself, byte for byte, and parsing that field again gives
  the same value. \<open>Generate\<close> renders the algorithm of a key by that field: the third
  field of the payload it encodes is the input text.
\<close>

theorem ParseAlg_String_is_input:
  assumes ok: "ParseAlg s = Inr a"
  shows "String a = s \<and> ParseAlg (String a) = Inr a \<and>
         (\<forall>ak password ak' r'.
            alg ak = a \<and> generatePasword rand_Read IDKey r ak = (Inr password, ak', r') \<longrightarrow>
            Generate rand_Read IDKey r ak =
              (Inr (EncodeToString (bytes_of_string
                 (Join [take apiKeyNameLen (DisplayName ak'), ClientID ak', s,
                        EncodeToString (Salt ak'), EncodeToString password] ''.''))), ak', r'))"
proof (intro conjI allI impI)
  from ParseAlg_InrD [OF ok] show str: "String a = s" by auto
  with ok show "ParseAlg (String a) = Inr a" by simp
  fix ak password ak' r'
  assume h: "alg ak = a \<and> generatePasword rand_Read IDKey r ak = (Inr password, ak', r')"
  then have gp: "generatePasword rand_Read IDKey r ak = (Inr password, ak', r')" by simp
  have "alg ak' = alg ak"
    using gp by (auto simp: generatePasword_def Let_def split: prod.splits option.splits if_splits)
  with h str have "String (alg ak') = s" by simp
  with Generate_of_generatePasword [OF gp]
  show "Generate rand_Read IDKey r ak =
              (Inr (EncodeToString (bytes_of_string
                 (Join [take apiKeyNameLen (DisplayName ak'), ClientID ak', s,
                        EncodeToString (Salt ak'), EncodeToString password] ''.''))), ak', r')"
    by simp
qed

theorem ParseAlg_String_is_input_witness:
  "ParseAlg ''argon2id:3 64MB 32'' =
     Inr \<lparr>Time = 3, Memory = 64, KeyLen = 32, String = ''argon2id:3 64MB 32''\<rparr> \<and>
   String \<lparr>Time = 3, Memory = 64, KeyLen = 32, String = ''argon2id:3 64MB 32''\<rparr>
     = ''argon2id:3 64MB 32'' \<and>
   Generate (\<lambda>r n. (\<lparr>rr_data = replicate n (of_nat r), rr_n = int n, rr_err = None\<rparr>, Suc r))
       (\<lambda>p s t m th k. take (unat k) (p @ s)) (7 :: nat)
       \<lparr>alg = \<lparr>Time = 3, Memory = 64, KeyLen = 32, String = ''argon2id:3 64MB 32''\<rparr>,
        Salt = [], DerivedKey = [], ClientID = ''id'', DisplayName = ''n''\<rparr>
     = (Inr (EncodeToString (bytes_of_string
          (Join [''n'', ''id'', ''argon2id:3 64MB 32'', EncodeToString (replicate 32 7),
                 EncodeToString (replicate 32 8)] ''.''))),
        \<lparr>alg = \<lparr>Time = 3, Memory = 64, KeyLen = 32, String = ''argon2id:3 64MB 32''\<rparr>,
         Salt = replicate 32 7, DerivedKey = replicate 32 8, ClientID = ''id'',
         DisplayName = ''n''\<rparr>, 9)"
proof -
  let ?rd = "\<lambda>(r :: nat) n. (\<lparr>rr_data = replicate n (of_nat r :: byte), rr_n = int n, rr_err = None\<rparr>, Suc r)"
  let ?kdf = "\<lambda>(p :: byte list) (s :: byte list) (t :: 32 word) (m :: 32 word) (th :: 8 word) (k :: 32 word). take (unat k) (p @ s)"
  let ?a = "\<lparr>Time = 3, Memory = 64, KeyLen = 32, String = ''argon2id:3 64MB 32''\<rparr>"
  let ?ak = "\<lparr>alg = ?a, Salt = [], DerivedKey = [], ClientID = ''id'', DisplayName = ''n''\<rparr>"
  let ?ak' = "\<lparr>alg = ?a, Salt = replicate 32 7, DerivedKey = replicate 32 8, ClientID = ''id'',
         DisplayName = ''n''\<rparr>"
  have gp: "generatePasword ?rd ?kdf 7 ?ak = (Inr (replicate 32 8), ?ak', 9)"
    by (simp add: generatePasword_def Let_def read_into_def make_bytes_def saltLen_def
          passwordLen_def argon2Threads_def)
  note inst = ParseAlg_String_is_input [OF ParseAlg_StandardAlg, where rand_Read = ?rd and IDKey = ?kdf and r = 7]
  from inst have str: "String ?a = ''argon2id:3 64MB 32''" by (rule conjunct1)
  from inst have "\<forall>ak password ak' r'.
            alg ak = ?a \<and> generatePasword ?rd ?kdf 7 ak = (Inr password, ak', r') \<longrightarrow>
            Generate ?rd ?kdf 7 ak =
              (Inr (EncodeToString (bytes_of_string
                 (Join [take apiKeyNameLen (DisplayName ak'), ClientID ak', ''argon2id:3 64MB 32'',
                        EncodeToString (Salt ak'), EncodeToString password] ''.''))), ak', r')"
    by (elim conjE)
  from this [rule_format, of ?ak "replicate 32 8" ?ak' 9] gp
  have "Generate ?rd ?kdf 7 ?ak =
              (Inr (EncodeToString (bytes_of_string
                 (Join [take apiKeyNameLen (DisplayName ?ak'), ClientID ?ak', ''argon2id:3 64MB 32'',
                        EncodeToString (Salt ?ak'), EncodeToString (replicate 32 8)] ''.''))), ?ak', 9)"
    by (simp only: Key.simps simp_thms)
  moreover have "take apiKeyNameLen (DisplayName ?ak') = ''n''"
    by (simp add: apiKeyNameLen_def)
  moreover have "ClientID ?ak' = ''id''" "Salt ?ak' = replicate 32 7" by simp_all
  ultimately have G: "Generate ?rd ?kdf 7 ?ak =
              (Inr (EncodeToString (bytes_of_string
                 (Join [''n'', ''id'', ''argon2id:3 64MB 32'',
                        EncodeToString (replicate 32 7), EncodeToString (replicate 32 8)] ''.''))), ?ak', 9)"
    by (simp only:)
  show ?thesis
    by (intro conjI) (rule ParseAlg_StandardAlg, rule str, rule G)
qed

text \<open>
  C7: \<open>ParseAlg\<close> never clamps. Whenever it succeeds, the descriptor is the prefix
  \<open>argon2id:\<close>, a decimal time cost, a space, a decimal memory cost followed by \<open>MB\<close>,
  a space and a decimal output length; the three fields of the result are exactly the
  numbers written, and they lie in 1..5, 16..64 and 16..64. So a descriptor whose time,
  memory or length is out of range, or whose memory field lacks the \<open>MB\<close> suffix, is
  rejected. The four descriptors named by the specification fail, each with the error
  of its field, and \<open>argon2id:3 64MB 32\<close> gives time 3, memory 64, length 32.
\<close>

theorem ParseAlg_rejects_out_of_domain:
  "(\<forall>s a. ParseAlg s = Inr a \<longrightarrow>
      (\<exists>p0 m p2 t mem k.
         s = ''argon2id:'' @ p0 @ '' '' @ m @ ''MB'' @ '' '' @ p2 \<and>
         parse_digits 0 p0 = Inr t \<and> parse_digits 0 m = Inr mem \<and>
         parse_digits 0 p2 = Inr k \<and>
         Time a = of_nat t \<and> Memory a = of_nat mem \<and> KeyLen a = of_nat k \<and>
         1 \<le> t \<and> t \<le> 5 \<and> 16 \<le> mem \<and> mem \<le> 64 \<and> 16 \<le> k \<and> k \<le> 64)) \<and>
   ParseAlg ''argon2id:6 64MB 32'' = Inl (ErrTimeTooLarge ''6'') \<and>
   ParseAlg ''argon2id:3 15MB 32'' = Inl (ErrMemoryTooSmall ''15MB'') \<and>
   ParseAlg ''argon2id:3 64MB 15'' = Inl (ErrKeyLengthTooSmall ''15'') \<and>
   ParseAlg ''argon2id:3 64M 32'' = Inl (ErrBadMemorySuffix ''64M'') \<and>
   ParseAlg ''argon2id:3 64MB 32'' =
     Inr \<lparr>Time = 3, Memory = 64, KeyLen = 32, String = ''argon2id:3 64MB 32''\<rparr>"
proof (intro conjI allI impI)
  fix s a
  assume "ParseAlg s = Inr a"
  from ParseAlg_InrD [OF this] obtain p0 m p2 t mem k where
    "s = argon2idAlgID @ p0 @ space @ m @ memSuffix @ space @ p2"
    "parse_digits 0 p0 = Inr t" "parse_digits 0 m = Inr mem" "parse_digits 0 p2 = Inr k"
    "a = \<lparr>Time = of_nat t, Memory = of_nat mem, KeyLen = of_nat k, String = s\<rparr>"
    "minTime \<le> t" "t \<le> maxTime" "minMem \<le> mem" "mem \<le> maxMem"
    "minKeyLength \<le> k" "k \<le> maxKeyLength"
    by blast
  then have
    "s = ''argon2id:'' @ p0 @ '' '' @ m @ ''MB'' @ '' '' @ p2 \<and>
     parse_digits 0 p0 = Inr t \<and> parse_digits 0 m = Inr mem \<and> parse_digits 0 p2 = Inr k \<and>
     Time a = of_nat t \<and> Memory a = of_nat mem \<and> KeyLen a = of_nat k \<and>
     1 \<le> t \<and> t \<le> 5 \<and> 16 \<le> mem \<and> mem \<le> 64 \<and> 16 \<le> k \<and> k \<le> 64"
    by (simp add: argon2idAlgID_def space_def memSuffix_def minTime_def maxTime_def
          minMem_def maxMem_def minKeyLength_def maxKeyLength_def)
  then show "\<exists>p0 m p2 t mem k.
         s = ''argon2id:'' @ p0 @ '' '' @ m @ ''MB'' @ '' '' @ p2 \<and>
         parse_digits 0 p0 = Inr t \<and> parse_digits 0 m = Inr mem \<and>
         parse_digits 0 p2 = Inr k \<and>
         Time a = of_nat t \<and> Memory a = of_nat mem \<and> KeyLen a = of_nat k \<and>
         1 \<le> t \<and> t \<le> 5 \<and> 16 \<le> mem \<and> mem \<le> 64 \<and> 16 \<le> k \<and> k \<le> 64"
    by blast
next
  show "ParseAlg ''argon2id:6 64MB 32'' = Inl (ErrTimeTooLarge ''6'')"
    by (simp add: ParseAlg_eval)
next
  show "ParseAlg ''argon2id:3 15MB 32'' = Inl (ErrMemoryTooSmall ''15MB'')"
    by (simp add: ParseAlg_eval)
next
  show "ParseAlg ''argon2id:3 64MB 15'' = Inl (ErrKeyLengthTooSmall ''15'')"
    by (simp add: ParseAlg_eval)
next
  show "ParseAlg ''argon2id:3 64M 32'' = Inl (ErrBadMemorySuffix ''64M'')"
    by (simp add: ParseAlg_eval)
next
  show "ParseAlg ''argon2id:3 64MB 32'' =
     Inr \<lparr>Time = 3, Memory = 64, KeyLen = 32, String = ''argon2id:3 64MB 32''\<rparr>"
    by (rule ParseAlg_StandardAlg)
qed

lemma ParseAlg_small_and_fast:
  "ParseAlg ''argon2id:1 16MB 64'' =
     Inr \<lparr>Time = 1, Memory = 16, KeyLen = 64, String = ''argon2id:1 16MB 64''\<rparr>"
  by (simp add: ParseAlg_eval)

theorem ParseAlg_rejects_out_of_domain_witness:
  "ParseAlg ''argon2id:1 16MB 64'' =
     Inr \<lparr>Time = 1, Memory = 16, KeyLen = 64, String = ''argon2id:1 16MB 64''\<rparr> \<and>
   (\<exists>p0 m p2 t mem k.
      ''argon2id:1 16MB 64'' = ''argon2id:'' @ p0 @ '' '' @ m @ ''MB'' @ '' '' @ p2 \<and>
      parse_digits 0 p0 = Inr t \<and> parse_digits 0 m = Inr mem \<and> parse_digits 0 p2 = Inr k \<and>
      (1 :: 32 word) = of_nat t \<and> (16 :: 32 word) = of_nat mem \<and> (64 :: 32 word) = of_nat k \<and>
      1 \<le> t \<and> t \<le> 5 \<and> 16 \<le> mem \<and> mem \<le> 64 \<and> 16 \<le> k \<and> k \<le> 64)"
proof -
  from ParseAlg_rejects_out_of_domain have
    "\<forall>s a. ParseAlg s = Inr a \<longrightarrow>
      (\<exists>p0 m p2 t mem k.
         s = ''argon2id:'' @ p0 @ '' '' @ m @ ''MB'' @ '' '' @ p2 \<and>
         parse_digits 0 p0 = Inr t \<and> parse_digits 0 m = Inr mem \<and>
         parse_digits 0 p2 = Inr k \<and>
         Time a = of_nat t \<and> Memory a = of_nat mem \<and> KeyLen a = of_nat k \<and>
         1 \<le> t \<and> t \<le> 5 \<and> 16 \<le> mem \<and> mem \<le> 64 \<and> 16 \<le> k \<and> k \<le> 64)"
    by (rule conjunct1)
  from this [rule_format, OF ParseAlg_small_and_fast] ParseAlg_small_and_fast
  show ?thesis by simp
qed

section \<open>Splitting and joining on a one-character separator\<close>

lemma HasPrefix_single: "HasPrefix (x # xs) [c] = (x = c)"
  by (simp add: HasPrefix_def)

lemma Index_absent: "c \<notin> set a \<Longrightarrow> Index a [c] = None"
  by (induction a) (auto simp: HasPrefix_single)

lemma Index_first: "c \<notin> set a \<Longrightarrow> Index (a @ c # r) [c] = Some (length a)"
  by (induction a) (auto simp: HasPrefix_single)

lemma Index_None_absent: "Index s [c] = None \<Longrightarrow> c \<notin> set s"
  by (induction s) (auto simp: HasPrefix_single split: if_splits)

lemma Index_Some_first:
  "Index s [c] = Some m \<Longrightarrow> c \<notin> set (take m s) \<and> m < length s \<and> s ! m = c"
proof (induction s arbitrary: m)
  case Nil
  then show ?case by simp
next
  case (Cons x xs)
  show ?case
  proof (cases "x = c")
    case True
    with Cons.prems show ?thesis by (simp add: HasPrefix_single)
  next
    case False
    with Cons.prems obtain k where k: "Index xs [c] = Some k" "m = Suc k"
      by (auto simp: HasPrefix_single)
    from Cons.IH [OF k(1)] k(2) False show ?thesis by simp
  qed
qed

lemma SplitN_last: "c \<notin> set a \<Longrightarrow> SplitN a [c] (Suc n) = [a]"
  by (cases n) (simp_all add: Index_absent)

lemma SplitN_field:
  "c \<notin> set a \<Longrightarrow> SplitN (a @ c # r) [c] (Suc (Suc n)) = a # SplitN r [c] (Suc n)"
  by (simp add: Index_first)

lemma SplitN_five_fields:
  assumes "CHR ''.'' \<notin> set f0" "CHR ''.'' \<notin> set f1" "CHR ''.'' \<notin> set f2"
          "CHR ''.'' \<notin> set f3" "CHR ''.'' \<notin> set f4"
  shows "SplitN (Join [f0, f1, f2, f3, f4] ''.'') ''.'' (apiKeyNumParts + 1) = [f0, f1, f2, f3, f4]"
proof -
  have n: "apiKeyNumParts + 1 = Suc (Suc (Suc (Suc (Suc (Suc 0)))))"
    by (simp add: apiKeyNumParts_def)
  show ?thesis
    unfolding n using assms by (simp add: SplitN_field SplitN_last del: SplitN.simps)
qed

lemma length_SplitN:
  "length (SplitN s [c] (Suc n)) = min (Suc n) (Suc (count_list s c))"
proof (induction s "[c]" "Suc n" arbitrary: n rule: SplitN.induct)
  case (2 s)
  show ?case by simp
next
  case (3 s n)
  show ?case
  proof (cases "Index s [c]")
    case None
    then have "c \<notin> set s" by (rule Index_None_absent)
    then have "count_list s c = 0" by (simp add: count_list_0_iff)
    with None show ?thesis by simp
  next
    case (Some m)
    from Index_Some_split [OF Some] have s: "s = take m s @ c # drop (Suc m) s" by simp
    from Index_Some_first [OF Some] have "c \<notin> set (take m s)" by simp
    then have z: "count_list (take m s) c = 0" by (simp add: count_list_0_iff)
    have "count_list s c = count_list (take m s @ c # drop (Suc m) s) c"
      using s by simp
    also have "\<dots> = Suc (count_list (drop (Suc m) s) c)"
      using z by simp
    finally have cnt: "count_list s c = Suc (count_list (drop (Suc m) s) c)" .
    from "3.hyps" [OF Some] have "length (SplitN (drop (m + length [c]) s) [c] (Suc n))
        = min (Suc n) (Suc (count_list (drop (m + length [c]) s) c))" by simp
    with Some cnt show ?thesis by simp
  qed
qed

lemma parse_digits_all_digits:
  "parse_digits acc s = Inr n \<Longrightarrow> \<forall>c \<in> set s. is_digit c"
  by (induction s arbitrary: acc) (auto simp: Let_def split: if_splits)

lemma dot_not_digit: "\<not> is_digit CHR ''.''"
  by (simp add: is_digit_def)

lemma ParseAlg_no_dot:
  assumes "ParseAlg s = Inr a"
  shows "CHR ''.'' \<notin> set s"
proof -
  from ParseAlg_InrD [OF assms] obtain p0 m p2 t mem k where
    s: "s = argon2idAlgID @ p0 @ space @ m @ memSuffix @ space @ p2" and
    d: "parse_digits 0 p0 = Inr t" "parse_digits 0 m = Inr mem" "parse_digits 0 p2 = Inr k"
    by blast
  from d have "CHR ''.'' \<notin> set p0" "CHR ''.'' \<notin> set m" "CHR ''.'' \<notin> set p2"
    using parse_digits_all_digits dot_not_digit by blast+
  then show ?thesis
    by (simp add: s argon2idAlgID_def space_def memSuffix_def)
qed

lemma generatePasword_frame:
  assumes "generatePasword rd kdf r ak = (res, ak', r')"
  shows "alg ak' = alg ak" "ClientID ak' = ClientID ak" "DisplayName ak' = DisplayName ak"
        "length (Salt ak') = saltLen"
  using assms
  by (auto simp: generatePasword_def Let_def read_into_def make_bytes_def
           split: prod.splits option.splits if_splits)

lemma generatePasword_success:
  assumes "generatePasword rd kdf r ak = (Inr password, ak', r')"
  shows "length password = passwordLen"
        "DerivedKey ak' = kdf password (Salt ak') (Time (alg ak)) (Memory (alg ak)) argon2Threads (KeyLen (alg ak))"
  using assms
  by (auto simp: generatePasword_def Let_def read_into_def make_bytes_def
           split: prod.splits option.splits if_splits)

lemma Decode_of_fields:
  assumes dots: "CHR ''.'' \<notin> set name" "CHR ''.'' \<notin> set cid"
      and ok: "ParseAlg algtext = Inr a"
  shows "Decode (EncodeToString (bytes_of_string
           (Join [name, cid, algtext, EncodeToString salt, EncodeToString password] ''.''))) =
         Inr (\<lparr>alg = a, Salt = salt, DerivedKey = [], ClientID = cid, DisplayName = name\<rparr>,
              password)"
proof -
  have parts: "SplitN (Join [name, cid, algtext, EncodeToString salt, EncodeToString password] ''.'')
                 ''.'' (apiKeyNumParts + 1)
               = [name, cid, algtext, EncodeToString salt, EncodeToString password]"
    using dots ParseAlg_no_dot [OF ok] no_sep_in_EncodeToString
    by (intro SplitN_five_fields) simp_all
  show ?thesis
    by (simp only: Decode_def DecodeString_EncodeToString sum.case string_of_bytes_of_string
          parts Let_def)
       (simp add: DecodeString_EncodeToString ok
          apiKeyNumParts_def apiKeyAlgPart_def apiKeyDisplayNamePrefixPart_def apiKeyIDPart_def
          apiKeySaltPart_def apiKeyPasswordPart_def Key_zero_def)
qed

section \<open>Round trip of the five-field artifact\<close>

text \<open>
  C1: take a key whose algorithm is a parsed descriptor and whose client id and display
  name (its first 16 bytes) hold no \<open>.\<close>; whenever \<open>Generate\<close> returns an artifact for
  it, \<open>Decode\<close> of that artifact succeeds and gives back the client id, the display name
  cut to its first 16 bytes, the algorithm with its descriptor text, the salt that
  \<open>Generate\<close> drew and the secret that it drew.
\<close>

theorem Decode_Generate_roundtrip:
  assumes valid: "ParseAlg (String (alg ak)) = Inr (alg ak)"
      and cid: "CHR ''.'' \<notin> set (ClientID ak)"
      and name: "CHR ''.'' \<notin> set (take apiKeyNameLen (DisplayName ak))"
      and gen: "Generate rand_Read IDKey r ak = (Inr apikey, ak', r')"
  shows "\<exists>password.
           generatePasword rand_Read IDKey r ak = (Inr password, ak', r') \<and>
           Decode apikey =
             Inr (\<lparr>alg = alg ak, Salt = Salt ak', DerivedKey = [], ClientID = ClientID ak,
                   DisplayName = take 16 (DisplayName ak)\<rparr>, password)"
proof -
  from Generate_InrD [OF gen] obtain password where
    gp: "generatePasword rand_Read IDKey r ak = (Inr password, ak', r')" by blast
  note fr = generatePasword_frame [OF gp]
  from Generate_of_generatePasword [OF gp] gen have
    apikey: "apikey = EncodeToString (bytes_of_string
        (Join [take apiKeyNameLen (DisplayName ak), ClientID ak, String (alg ak),
               EncodeToString (Salt ak'), EncodeToString password] ''.''))"
    by (simp add: fr)
  have "Decode apikey =
      Inr (\<lparr>alg = alg ak, Salt = Salt ak', DerivedKey = [], ClientID = ClientID ak,
            DisplayName = take apiKeyNameLen (DisplayName ak)\<rparr>, password)"
    unfolding apikey using name cid valid by (rule Decode_of_fields)
  with gp show ?thesis by (simp add: apiKeyNameLen_def)
qed

theorem Decode_Generate_roundtrip_witness:
  "\<exists>apikey ak' r' password.
     ParseAlg ''argon2id:3 64MB 32'' =
       Inr \<lparr>Time = 3, Memory = 64, KeyLen = 32, String = ''argon2id:3 64MB 32''\<rparr> \<and>
     Generate (\<lambda>r n. (\<lparr>rr_data = replicate n (of_nat r), rr_n = int n, rr_err = None\<rparr>, Suc r))
       (\<lambda>p s t m th k. take (unat k) (p @ s)) (7 :: nat)
       \<lparr>alg = \<lparr>Time = 3, Memory = 64, KeyLen = 32, String = ''argon2id:3 64MB 32''\<rparr>,
        Salt = [], DerivedKey = [], ClientID = ''client-1'',
        DisplayName = ''0123456789123456longer than the allowed 16 chars..''\<rparr>
       = (Inr apikey, ak', r') \<and>
     length ''0123456789123456longer than the allowed 16 chars..'' = 50 \<and>
     Salt ak' = replicate 32 7 \<and> password = replicate 32 8 \<and>
     Decode apikey =
       Inr (\<lparr>alg = \<lparr>Time = 3, Memory = 64, KeyLen = 32, String = ''argon2id:3 64MB 32''\<rparr>,
             Salt = Salt ak', DerivedKey = [], ClientID = ''client-1'',
             DisplayName = ''0123456789123456''\<rparr>, password)"
proof -
  let ?rd = "\<lambda>(r :: nat) n. (\<lparr>rr_data = replicate n (of_nat r :: byte), rr_n = int n, rr_err = None\<rparr>, Suc r)"
  let ?kdf = "\<lambda>(p :: byte list) (s :: byte list) (t :: 32 word) (m :: 32 word) (th :: 8 word) (k :: 32 word). take (unat k) (p @ s)"
  let ?a = "\<lparr>Time = 3, Memory = 64, KeyLen = 32, String = ''argon2id:3 64MB 32''\<rparr>"
  let ?ak = "\<lparr>alg = ?a, Salt = [], DerivedKey = [], ClientID = ''client-1'',
        DisplayName = ''0123456789123456longer than the allowed 16 chars..''\<rparr>"
  let ?pw = "replicate 32 8 :: byte list"
  let ?ak' = "?ak\<lparr>Salt := replicate 32 7, DerivedKey := ?kdf ?pw (replicate 32 7) 3 64 1 32\<rparr>"
  have gp: "generatePasword ?rd ?kdf 7 ?ak = (Inr ?pw, ?ak', 9)"
    by (simp add: generatePasword_def Let_def read_into_def make_bytes_def saltLen_def
          passwordLen_def argon2Threads_def)
  from Generate_of_generatePasword [OF gp] obtain apikey where
    gen: "Generate ?rd ?kdf 7 ?ak = (Inr apikey, ?ak', 9)" by blast
  have valid: "ParseAlg (String (alg ?ak)) = Inr (alg ?ak)"
    using ParseAlg_StandardAlg by simp
  have cid: "CHR ''.'' \<notin> set (ClientID ?ak)" by simp
  have name: "CHR ''.'' \<notin> set (take apiKeyNameLen (DisplayName ?ak))"
    by (simp add: apiKeyNameLen_def)
  from Decode_Generate_roundtrip [OF valid cid name gen] gp have
    "Decode apikey =
       Inr (\<lparr>alg = ?a, Salt = Salt ?ak', DerivedKey = [], ClientID = ''client-1'',
             DisplayName = ''0123456789123456''\<rparr>, ?pw)"
    by simp
  with gen ParseAlg_StandardAlg show ?thesis
    by (intro exI [of _ apikey] exI [of _ ?ak'] exI [of _ "9 :: nat"] exI [of _ ?pw]) simp
qed

section \<open>The number of fields\<close>

lemma decode_quanta_error: "decode_quanta s = Inl e \<Longrightarrow> e = CorruptInputError"
  by (induction s arbitrary: e rule: decode_quanta.induct)
     (auto split: option.splits sum.splits if_splits)

lemma DecodeString_error: "DecodeString s = Inl e \<Longrightarrow> e = CorruptInputError"
  unfolding DecodeString_def by (rule decode_quanta_error)

lemma ParseAlg_not_ErrNumParts: "ParseAlg s \<noteq> Inl (ErrNumParts got want)"
  by (auto simp: ParseAlg_def Let_def split: if_splits list.splits sum.splits)

lemma length_SplitN_dots:
  "length (SplitN s ''.'' (apiKeyNumParts + 1)) = min 6 (count_list s CHR ''.'' + 1)"
proof -
  have "apiKeyNumParts + 1 = Suc 5" by (simp add: apiKeyNumParts_def)
  then show ?thesis by (simp only: length_SplitN)
qed

lemma Decode_DecodeString_error:
  "DecodeString apikey = Inl e \<Longrightarrow> Decode apikey = Inl e"
  by (simp add: Decode_def)

lemma Decode_wrong_count:
  assumes "DecodeString apikey = Inr b"
      and "length (SplitN (string_of_bytes b) ''.'' (apiKeyNumParts + 1)) \<noteq> apiKeyNumParts"
  shows "Decode apikey =
           Inl (ErrNumParts (length (SplitN (string_of_bytes b) ''.'' (apiKeyNumParts + 1)))
                  apiKeyNumParts)"
  using assms by (simp add: Decode_def Let_def)

lemma Decode_right_count:
  assumes "DecodeString apikey = Inr b"
      and "length (SplitN (string_of_bytes b) ''.'' (apiKeyNumParts + 1)) = apiKeyNumParts"
  shows "Decode apikey \<noteq> Inl (ErrNumParts got want)"
  using assms
  by (auto simp: Decode_def Let_def ParseAlg_not_ErrNumParts split: sum.splits
           dest: DecodeString_error)

text \<open>
  C5, as the code has it: \<open>Decode\<close> splits the payload on \<open>.\<close> with the split capped at
  six pieces, one more than the five fields, so the number of pieces is the number of
  separators plus one, and six when there are five separators or more. It fails with
  the error that reports the count found and the count 5 wanted exactly when the
  payload does not hold exactly four separators; a fifth separator is not absorbed
  into the last field but makes six pieces, which are rejected.
\<close>

theorem Decode_field_count:
  assumes "DecodeString apikey = Inr b"
  shows "length (SplitN (string_of_bytes b) ''.'' (apiKeyNumParts + 1)) =
           min 6 (count_list (string_of_bytes b) CHR ''.'' + 1) \<and>
         ((\<exists>got want. Decode apikey = Inl (ErrNumParts got want)) \<longleftrightarrow>
            count_list (string_of_bytes b) CHR ''.'' \<noteq> 4) \<and>
         (count_list (string_of_bytes b) CHR ''.'' \<noteq> 4 \<longrightarrow>
            Decode apikey =
              Inl (ErrNumParts (min 6 (count_list (string_of_bytes b) CHR ''.'' + 1)) 5))"
proof -
  let ?n = "count_list (string_of_bytes b) CHR ''.''"
  let ?parts = "SplitN (string_of_bytes b) ''.'' (apiKeyNumParts + 1)"
  have len: "length ?parts = min 6 (?n + 1)" by (rule length_SplitN_dots)
  have five: "length ?parts = apiKeyNumParts \<longleftrightarrow> ?n = 4"
    unfolding len by (auto simp: apiKeyNumParts_def min_def)
  have wrong: "?n \<noteq> 4 \<Longrightarrow> Decode apikey = Inl (ErrNumParts (min 6 (?n + 1)) 5)"
    using Decode_wrong_count [OF assms] five len by (simp add: apiKeyNumParts_def)
  have right: "?n = 4 \<Longrightarrow> Decode apikey \<noteq> Inl (ErrNumParts got want)" for got want
    using Decode_right_count [OF assms] five by simp
  have iff: "(\<exists>got want. Decode apikey = Inl (ErrNumParts got want)) \<longleftrightarrow> ?n \<noteq> 4"
  proof
    assume "\<exists>got want. Decode apikey = Inl (ErrNumParts got want)"
    then obtain got want where "Decode apikey = Inl (ErrNumParts got want)" by blast
    with right [of got want] show "?n \<noteq> 4" by blast
  next
    assume "?n \<noteq> 4"
    from wrong [OF this] show "\<exists>got want. Decode apikey = Inl (ErrNumParts got want)"
      by (intro exI)
  qed
  show ?thesis
  proof (intro conjI impI)
    show "length ?parts = min 6 (?n + 1)" by (rule len)
    show "(\<exists>got want. Decode apikey = Inl (ErrNumParts got want)) \<longleftrightarrow> ?n \<noteq> 4"
      by (rule iff)
    show "Decode apikey = Inl (ErrNumParts (min 6 (?n + 1)) 5)" if "?n \<noteq> 4"
      using that by (rule wrong)
  qed
qed

lemma DecodeString_example_six:
  "DecodeString ''YS5iLmMuZC5lLmY='' = Inr (bytes_of_string ''a.b.c.d.e.f'')"
  by (simp add: DecodeString_def quantum3_def quantum2_def quantum1_def dec6_def encodeURL_def
        padChar_def bytes_of_string_def)

theorem Decode_field_count_witness:
  "DecodeString ''YS5iLmMuZC5lLmY='' = Inr (bytes_of_string ''a.b.c.d.e.f'') \<and>
   count_list ''a.b.c.d.e.f'' CHR ''.'' = 5 \<and>
   Decode ''YS5iLmMuZC5lLmY='' = Inl (ErrNumParts 6 5)"
  using Decode_field_count [OF DecodeString_example_six] DecodeString_example_six
  by (simp add: string_of_bytes_of_string)

text \<open>
  The payload \<open>a.b.c.d.e.f\<close>: a split capped at five pieces gives five fields, the
  last one \<open>e.f\<close>, but \<open>Decode\<close> splits it into six and reports 6 pieces for 5 wanted.
\<close>

theorem Decode_split_cap_counterexample:
  "DecodeString ''YS5iLmMuZC5lLmY='' = Inr (bytes_of_string ''a.b.c.d.e.f'') \<and>
   SplitN ''a.b.c.d.e.f'' ''.'' 5 = [''a'', ''b'', ''c'', ''d'', ''e.f''] \<and>
   SplitN ''a.b.c.d.e.f'' ''.'' (apiKeyNumParts + 1) = [''a'', ''b'', ''c'', ''d'', ''e'', ''f''] \<and>
   Decode ''YS5iLmMuZC5lLmY='' = Inl (ErrNumParts 6 5)"
proof -
  have s5: "SplitN ''a.b.c.d.e.f'' ''.'' 5 = [''a'', ''b'', ''c'', ''d'', ''e.f'']"
    by (simp add: HasPrefix_def eval_nat_numeral)
  have s6: "SplitN ''a.b.c.d.e.f'' ''.'' (apiKeyNumParts + 1)
              = [''a'', ''b'', ''c'', ''d'', ''e'', ''f'']"
    by (simp add: HasPrefix_def eval_nat_numeral apiKeyNumParts_def)
  have "Decode ''YS5iLmMuZC5lLmY='' = Inl (ErrNumParts 6 5)"
    by (simp only: Decode_def DecodeString_example_six sum.case string_of_bytes_of_string s6
          Let_def)
       (simp add: apiKeyNumParts_def)
  with s5 s6 DecodeString_example_six show ?thesis by simp
qed

section \<open>The three-field layout without a colon\<close>

lemma count_list_pos_iff: "0 < count_list s c \<longleftrightarrow> c \<in> set s"
  using count_list_0_iff [of s c] by auto

lemma length_SplitN_colon:
  "length (SplitN s '':'' 3) = min 3 (count_list s CHR '':'' + 1)"
proof -
  have "(3 :: nat) = Suc 2" by simp
  then show ?thesis by (simp only: length_SplitN)
qed

text \<open>
  C10: in the three-field layout, when the outer base64 decoding succeeds and the
  payload holds no \<open>:\<close>, the split has one piece and \<open>Decode\<close> indexes piece 1 of 1:
  it panics instead of returning an error. When the payload holds a \<open>:\<close>, \<open>Decode\<close>
  returns (a key or an error).
\<close>

theorem Decode_basic_panics_without_colon:
  assumes "DecodeString apikey = Inr b"
  shows "(CHR '':'' \<notin> set (string_of_bytes b) \<longrightarrow>
            Decode_basic apikey = Panic_index_out_of_range 1 1) \<and>
         (CHR '':'' \<in> set (string_of_bytes b) \<longrightarrow>
            (\<exists>res. Decode_basic apikey = Returns res))"
proof (intro conjI impI)
  let ?parts = "SplitN (string_of_bytes b) '':'' 3"
  assume "CHR '':'' \<notin> set (string_of_bytes b)"
  then have "count_list (string_of_bytes b) CHR '':'' = 0"
    by (simp add: count_list_0_iff)
  then have "length ?parts = 1"
    by (simp add: length_SplitN_colon)
  with assms show "Decode_basic apikey = Panic_index_out_of_range 1 1"
    by (simp add: Decode_basic_def Let_def index_slice_def)
next
  let ?parts = "SplitN (string_of_bytes b) '':'' 3"
  assume "CHR '':'' \<in> set (string_of_bytes b)"
  then have "0 < count_list (string_of_bytes b) CHR '':''"
    by (simp add: count_list_pos_iff)
  then have len: "length ?parts = 2 \<or> length ?parts = 3"
    by (auto simp: length_SplitN_colon min_def)
  then show "\<exists>res. Decode_basic apikey = Returns res"
  proof
    assume "length ?parts = 3"
    with assms show ?thesis by (simp add: Decode_basic_def Let_def)
  next
    assume "length ?parts = 2"
    with assms show ?thesis
      by (simp add: Decode_basic_def Let_def index_slice_def split: sum.splits)
  qed
qed

lemma DecodeString_example_abc: "DecodeString ''YWJj'' = Inr (bytes_of_string ''abc'')"
  by (simp add: DecodeString_def quantum3_def dec6_def encodeURL_def padChar_def
        bytes_of_string_def)

theorem Decode_basic_panics_without_colon_witness:
  "DecodeString ''YWJj'' = Inr (bytes_of_string ''abc'') \<and>
   CHR '':'' \<notin> set ''abc'' \<and>
   Decode_basic ''YWJj'' = Panic_index_out_of_range 1 1"
  using Decode_basic_panics_without_colon [OF DecodeString_example_abc] DecodeString_example_abc
  by (simp add: string_of_bytes_of_string)

section \<open>Matching a secret\<close>

text \<open>
  C2, as the code has it: for a key with a parsed algorithm, matching a secret against
  the key recovered from the same secret succeeds; matching another secret against it
  succeeds exactly when the two secrets have the same derived key, so it fails for
  every other secret whose derived key differs.
\<close>

theorem MatchPassword_iff_same_derived_key:
  assumes "ParseAlg (String (alg ak)) = Inr (alg ak)"
  shows "snd (MatchPassword IDKey ak secret (RecoverKey IDKey ak secret)) \<and>
         (snd (MatchPassword IDKey ak secret2 (RecoverKey IDKey ak secret)) \<longleftrightarrow>
            RecoverKey IDKey ak secret2 = RecoverKey IDKey ak secret)"
  by (simp add: MatchPassword_def Let_def RecoverKey_def)

theorem MatchPassword_iff_same_derived_key_witness:
  "ParseAlg ''argon2id:3 64MB 32'' =
     Inr \<lparr>Time = 3, Memory = 64, KeyLen = 32, String = ''argon2id:3 64MB 32''\<rparr> \<and>
   snd (MatchPassword (\<lambda>p s t m th k. take (unat k) (p @ s))
          \<lparr>alg = \<lparr>Time = 3, Memory = 64, KeyLen = 32, String = ''argon2id:3 64MB 32''\<rparr>,
           Salt = [9], DerivedKey = [], ClientID = ''id'', DisplayName = ''n''\<rparr>
          [1]
          (RecoverKey (\<lambda>p s t m th k. take (unat k) (p @ s))
             \<lparr>alg = \<lparr>Time = 3, Memory = 64, KeyLen = 32, String = ''argon2id:3 64MB 32''\<rparr>,
              Salt = [9], DerivedKey = [], ClientID = ''id'', DisplayName = ''n''\<rparr> [1])) \<and>
   \<not> snd (MatchPassword (\<lambda>p s t m th k. take (unat k) (p @ s))
          \<lparr>alg = \<lparr>Time = 3, Memory = 64, KeyLen = 32, String = ''argon2id:3 64MB 32''\<rparr>,
           Salt = [9], DerivedKey = [], ClientID = ''id'', DisplayName = ''n''\<rparr>
          [2]
          (RecoverKey (\<lambda>p s t m th k. take (unat k) (p @ s))
             \<lparr>alg = \<lparr>Time = 3, Memory = 64, KeyLen = 32, String = ''argon2id:3 64MB 32''\<rparr>,
              Salt = [9], DerivedKey = [], ClientID = ''id'', DisplayName = ''n''\<rparr> [1]))"
proof -
  let ?kdf = "\<lambda>(p :: byte list) (s :: byte list) (t :: 32 word) (m :: 32 word) (th :: 8 word) (k :: 32 word). take (unat k) (p @ s)"
  let ?ak = "\<lparr>alg = \<lparr>Time = 3, Memory = 64, KeyLen = 32, String = ''argon2id:3 64MB 32''\<rparr>,
           Salt = [9 :: byte], DerivedKey = [], ClientID = ''id'', DisplayName = ''n''\<rparr>"
  have valid: "ParseAlg (String (alg ?ak)) = Inr (alg ?ak)"
    using ParseAlg_StandardAlg by simp
  have ne: "RecoverKey ?kdf ?ak [2] \<noteq> RecoverKey ?kdf ?ak [1]"
    by (simp add: RecoverKey_def)
  from MatchPassword_iff_same_derived_key [OF valid, of ?kdf "[1]" "[2]"] ne ParseAlg_StandardAlg
  show ?thesis by simp
qed

lemma finite_byte_lists: "finite {xs :: byte list. length xs = n}"
  using finite_lists_length_eq [of "UNIV :: byte set" n] by simp

text \<open>
  No key-derivation function whose output has the length asked for (as \<open>argon2.IDKey\<close>
  has) can tell all secrets apart: the secrets are infinitely many, the keys of one
  length finitely many. So for every such function two different secrets match the
  same stored key: it is not true that a different secret never matches.
\<close>

theorem MatchPassword_collision_counterexample:
  "\<not> (\<exists>IDKey :: kdf.
        (\<forall>p s t m th k. length (IDKey p s t m th k) = unat k) \<and>
        (\<forall>ak secret secret2.
           ParseAlg (String (alg ak)) = Inr (alg ak) \<longrightarrow> secret2 \<noteq> secret \<longrightarrow>
           \<not> snd (MatchPassword IDKey ak secret2 (RecoverKey IDKey ak secret))))"
proof
  assume "\<exists>IDKey :: kdf.
        (\<forall>p s t m th k. length (IDKey p s t m th k) = unat k) \<and>
        (\<forall>ak secret secret2.
           ParseAlg (String (alg ak)) = Inr (alg ak) \<longrightarrow> secret2 \<noteq> secret \<longrightarrow>
           \<not> snd (MatchPassword IDKey ak secret2 (RecoverKey IDKey ak secret)))"
  then obtain IDKey :: kdf where
    len: "\<And>p s t m th k. length (IDKey p s t m th k) = unat k" and
    apart: "\<And>ak secret secret2.
           ParseAlg (String (alg ak)) = Inr (alg ak) \<Longrightarrow> secret2 \<noteq> secret \<Longrightarrow>
           \<not> snd (MatchPassword IDKey ak secret2 (RecoverKey IDKey ak secret))"
    by blast
  define ak where "ak = \<lparr>alg = \<lparr>Time = 3, Memory = 64, KeyLen = 32, String = ''argon2id:3 64MB 32''\<rparr>,
           Salt = [], DerivedKey = [], ClientID = [], DisplayName = []\<rparr>"
  have valid: "ParseAlg (String (alg ak)) = Inr (alg ak)"
    using ParseAlg_StandardAlg by (simp add: ak_def)
  define f where "f = RecoverKey IDKey ak"
  have "inj f"
  proof (rule injI)
    fix x y
    assume eq: "f x = f y"
    show "x = y"
    proof (rule ccontr)
      assume "x \<noteq> y"
      from apart [OF valid this] eq show False
        by (simp add: MatchPassword_def Let_def f_def RecoverKey_def)
    qed
  qed
  moreover have "range f \<subseteq> {xs. length xs = 32}"
    by (auto simp: f_def RecoverKey_def len ak_def)
  then have "finite (range f)"
    using finite_byte_lists [of 32] by (rule finite_subset)
  ultimately have "finite (UNIV :: byte list set)"
    by (rule finite_imageD [rotated])
  then show False
    using infinite_UNIV_listI by blast
qed

text \<open>
  C4, as the code has it: \<open>MatchPassword\<close> stores the candidate it recomputes in the
  \<open>DerivedKey\<close> field of the key it is called on, and leaves the algorithm, the salt,
  the client id and the display name as they were. The stored key it compares with is
  its argument \<open>key\<close>, which it only reads.
\<close>

theorem MatchPassword_sets_DerivedKey:
  assumes "ParseAlg (String (alg ak)) = Inr (alg ak)"
  shows "fst (MatchPassword IDKey ak password key) =
           ak\<lparr>DerivedKey := RecoverKey IDKey ak password\<rparr> \<and>
         alg (fst (MatchPassword IDKey ak password key)) = alg ak \<and>
         Salt (fst (MatchPassword IDKey ak password key)) = Salt ak \<and>
         ClientID (fst (MatchPassword IDKey ak password key)) = ClientID ak \<and>
         DisplayName (fst (MatchPassword IDKey ak password key)) = DisplayName ak"
  by (simp add: MatchPassword_def Let_def)

theorem MatchPassword_sets_DerivedKey_witness:
  "ParseAlg ''argon2id:3 64MB 32'' =
     Inr \<lparr>Time = 3, Memory = 64, KeyLen = 32, String = ''argon2id:3 64MB 32''\<rparr> \<and>
   fst (MatchPassword (\<lambda>p s t m th k. take (unat k) (p @ s))
          \<lparr>alg = \<lparr>Time = 3, Memory = 64, KeyLen = 32, String = ''argon2id:3 64MB 32''\<rparr>,
           Salt = [9], DerivedKey = [], ClientID = ''id'', DisplayName = ''n''\<rparr>
          [1] [7, 7]) =
     \<lparr>alg = \<lparr>Time = 3, Memory = 64, KeyLen = 32, String = ''argon2id:3 64MB 32''\<rparr>,
      Salt = [9], DerivedKey = [1, 9], ClientID = ''id'', DisplayName = ''n''\<rparr>"
proof -
  let ?kdf = "\<lambda>(p :: byte list) (s :: byte list) (t :: 32 word) (m :: 32 word) (th :: 8 word) (k :: 32 word). take (unat k) (p @ s)"
  let ?ak = "\<lparr>alg = \<lparr>Time = 3, Memory = 64, KeyLen = 32, String = ''argon2id:3 64MB 32''\<rparr>,
           Salt = [9 :: byte], DerivedKey = [], ClientID = ''id'', DisplayName = ''n''\<rparr>"
  have valid: "ParseAlg (String (alg ?ak)) = Inr (alg ?ak)"
    using ParseAlg_StandardAlg by simp
  from MatchPassword_sets_DerivedKey [OF valid, of ?kdf "[1]" "[7, 7]"] ParseAlg_StandardAlg
  show ?thesis by (simp add: RecoverKey_def)
qed

text \<open>
  Whatever the key-derivation function, some key has a \<open>DerivedKey\<close> field that
  \<open>MatchPassword\<close> changes: a key that holds one byte more than the candidate.
\<close>

theorem MatchPassword_frame_counterexample:
  "\<not> (\<exists>IDKey :: kdf.
        \<forall>ak password key.
          ParseAlg (String (alg ak)) = Inr (alg ak) \<longrightarrow>
          DerivedKey (fst (MatchPassword IDKey ak password key)) = DerivedKey ak)"
proof
  assume "\<exists>IDKey :: kdf.
        \<forall>ak password key.
          ParseAlg (String (alg ak)) = Inr (alg ak) \<longrightarrow>
          DerivedKey (fst (MatchPassword IDKey ak password key)) = DerivedKey ak"
  then obtain IDKey :: kdf where
    kept: "\<And>ak password key. ParseAlg (String (alg ak)) = Inr (alg ak) \<Longrightarrow>
          DerivedKey (fst (MatchPassword IDKey ak password key)) = DerivedKey ak"
    by blast
  define ak0 where "ak0 = \<lparr>alg = \<lparr>Time = 3, Memory = 64, KeyLen = 32, String = ''argon2id:3 64MB 32''\<rparr>,
           Salt = [], DerivedKey = [], ClientID = [], DisplayName = []\<rparr>"
  define d where "d = RecoverKey IDKey ak0 []"
  define ak where "ak = ak0\<lparr>DerivedKey := 0 # d\<rparr>"
  have valid: "ParseAlg (String (alg ak)) = Inr (alg ak)"
    using ParseAlg_StandardAlg by (simp add: ak_def ak0_def)
  have "RecoverKey IDKey ak [] = d"
    by (simp add: d_def ak_def RecoverKey_def)
  with kept [OF valid, of "[]" "[]"] have "d = 0 # d"
    by (simp add: MatchPassword_def Let_def ak_def)
  then show False by simp
qed

section \<open>Generation and the random source\<close>

lemma Generate_propagates:
  "fst (generatePasword rd kdf r ak) = Inl e \<Longrightarrow>
   Generate rd kdf r ak =
     (Inl e, fst (snd (generatePasword rd kdf r ak)), snd (snd (generatePasword rd kdf r ak)))"
  by (cases "generatePasword rd kdf r ak") (simp add: Generate_def)

lemma generatePasword_salt_error:
  assumes "rd r saltLen = (res1, r1)" "rr_err res1 = Some e"
  shows "fst (generatePasword rd kdf r ak) = Inl e"
        "snd (snd (generatePasword rd kdf r ak)) = r1"
  using assms by (simp_all add: generatePasword_def Let_def)

lemma generatePasword_salt_short:
  assumes "rd r saltLen = (res1, r1)" "rr_err res1 = None" "rr_n res1 \<noteq> int saltLen"
  shows "fst (generatePasword rd kdf r ak) = Inl ErrInsufficientSalt"
        "snd (snd (generatePasword rd kdf r ak)) = r1"
  using assms by (simp_all add: generatePasword_def Let_def)

lemma generatePasword_password_error:
  assumes "rd r saltLen = (res1, r1)" "rr_err res1 = None" "rr_n res1 = int saltLen"
      and "rd r1 passwordLen = (res2, r2)" "rr_err res2 = Some e"
  shows "fst (generatePasword rd kdf r ak) = Inl e"
        "snd (snd (generatePasword rd kdf r ak)) = r2"
  using assms by (simp_all add: generatePasword_def Let_def)

lemma generatePasword_password_short:
  assumes "rd r saltLen = (res1, r1)" "rr_err res1 = None" "rr_n res1 = int saltLen"
      and "rd r1 passwordLen = (res2, r2)" "rr_err res2 = None" "rr_n res2 \<noteq> int passwordLen"
  shows "fst (generatePasword rd kdf r ak) = Inl ErrInsufficientPassword"
        "snd (snd (generatePasword rd kdf r ak)) = r2"
  using assms by (simp_all add: generatePasword_def Let_def)

lemma generatePasword_success_reads:
  assumes "rd r saltLen = (res1, r1)" "rd r1 passwordLen = (res2, r2)"
      and "fst (generatePasword rd kdf r ak) = Inr password"
  shows "rr_err res1 = None \<and> rr_n res1 = int saltLen \<and>
         rr_err res2 = None \<and> rr_n res2 = int passwordLen"
  using assms
  by (auto simp: generatePasword_def Let_def split: option.splits if_splits)

lemma generatePasword_Salt_drawn:
  assumes "rd r saltLen = (res1, r1)"
  shows "Salt (fst (snd (generatePasword rd kdf r ak))) = read_into (make_bytes saltLen) (rr_data res1)"
  using assms
  by (auto simp: generatePasword_def Let_def split: prod.splits option.splits if_splits)

lemma generatePasword_password_drawn:
  assumes "rd r saltLen = (res1, r1)" "rd r1 passwordLen = (res2, r2)"
      and "fst (generatePasword rd kdf r ak) = Inr password"
  shows "password = read_into (make_bytes passwordLen) (rr_data res2)"
        "snd (snd (generatePasword rd kdf r ak)) = r2"
  using assms
  by (auto simp: generatePasword_def Let_def split: option.splits if_splits)

lemma Generate_key_state:
  "snd (Generate rd kdf r ak) = snd (generatePasword rd kdf r ak)"
  by (cases "generatePasword rd kdf r ak")
     (auto simp: Generate_def Let_def split: sum.splits)

lemma read_into_full: "length written = length buf \<Longrightarrow> read_into buf written = written"
  by (simp add: read_into_def)

text \<open>
  C8, as the code has it: \<open>generatePasword\<close> reads the salt and then the secret from
  the random source, each into a fresh buffer of 32 bytes, so the salt of the key is
  the buffer as the first read left it and the secret the buffer as the second read
  left it; they are the bytes the source wrote when it wrote 32. A read that returns a
  count other than 32 ends the call with an error: the error of the source when it
  reports one, which is checked first, and the error of insufficient random bytes (for
  the salt or for the secret) when it reports none. \<open>Generate\<close> returns the same error
  and no artifact, and the source is not read again: its state is the one after the
  failed read. When \<open>Generate\<close> succeeds, both reads reported 32 bytes without error,
  salt and secret are 32 bytes long, and the artifact encodes these two buffers.
\<close>

theorem Generate_fails_on_short_read:
  assumes d1: "rand_Read r saltLen = (res1, r1)"
      and d2: "rand_Read r1 passwordLen = (res2, r2)"
  shows "Salt (fst (snd (Generate rand_Read IDKey r ak))) =
           read_into (make_bytes 32) (rr_data res1) \<and>
         (rr_n res1 \<noteq> 32 \<longrightarrow>
            fst (generatePasword rand_Read IDKey r ak) =
              Inl (case rr_err res1 of Some e \<Rightarrow> e | None \<Rightarrow> ErrInsufficientSalt) \<and>
            fst (Generate rand_Read IDKey r ak) =
              Inl (case rr_err res1 of Some e \<Rightarrow> e | None \<Rightarrow> ErrInsufficientSalt) \<and>
            snd (snd (Generate rand_Read IDKey r ak)) = r1) \<and>
         (\<forall>e. rr_err res1 = Some e \<longrightarrow>
            fst (Generate rand_Read IDKey r ak) = Inl e \<and>
            snd (snd (Generate rand_Read IDKey r ak)) = r1) \<and>
         (rr_err res1 = None \<and> rr_n res1 = 32 \<and> rr_n res2 \<noteq> 32 \<longrightarrow>
            fst (generatePasword rand_Read IDKey r ak) =
              Inl (case rr_err res2 of Some e \<Rightarrow> e | None \<Rightarrow> ErrInsufficientPassword) \<and>
            fst (Generate rand_Read IDKey r ak) =
              Inl (case rr_err res2 of Some e \<Rightarrow> e | None \<Rightarrow> ErrInsufficientPassword) \<and>
            snd (snd (Generate rand_Read IDKey r ak)) = r2) \<and>
         (\<forall>e. rr_err res1 = None \<and> rr_n res1 = 32 \<and> rr_err res2 = Some e \<longrightarrow>
            fst (Generate rand_Read IDKey r ak) = Inl e \<and>
            snd (snd (Generate rand_Read IDKey r ak)) = r2) \<and>
         (\<forall>e. fst (generatePasword rand_Read IDKey r ak) = Inl e \<longrightarrow>
            fst (Generate rand_Read IDKey r ak) = Inl e) \<and>
         (\<forall>apikey. fst (Generate rand_Read IDKey r ak) = Inr apikey \<longrightarrow>
            (\<exists>password.
               fst (generatePasword rand_Read IDKey r ak) = Inr password \<and>
               password = read_into (make_bytes 32) (rr_data res2) \<and>
               length password = 32 \<and>
               length (Salt (fst (snd (Generate rand_Read IDKey r ak)))) = 32 \<and>
               (length (rr_data res1) = 32 \<longrightarrow>
                  Salt (fst (snd (Generate rand_Read IDKey r ak))) = rr_data res1) \<and>
               (length (rr_data res2) = 32 \<longrightarrow> password = rr_data res2) \<and>
               apikey = EncodeToString (bytes_of_string
                 (Join [take apiKeyNameLen (DisplayName ak), ClientID ak, String (alg ak),
                        EncodeToString (read_into (make_bytes 32) (rr_data res1)),
                        EncodeToString (read_into (make_bytes 32) (rr_data res2))] ''.'')) \<and>
               rr_err res1 = None \<and> rr_n res1 = 32 \<and> rr_err res2 = None \<and> rr_n res2 = 32 \<and>
               snd (snd (Generate rand_Read IDKey r ak)) = r2))"
proof -
  let ?gp = "generatePasword rand_Read IDKey r ak"
  let ?G = "Generate rand_Read IDKey r ak"
  have ks: "snd ?G = snd ?gp" by (rule Generate_key_state)
  have salt: "Salt (fst (snd ?G)) = read_into (make_bytes 32) (rr_data res1)"
    using generatePasword_Salt_drawn [where rd = rand_Read and r = r and kdf = IDKey and ak = ak, OF d1]
    by (simp add: ks saltLen_def)
  have propa: "fst ?G = Inl e" if "fst ?gp = Inl e" for e
    using that by (simp add: Generate_propagates)
  have c1: "fst ?gp = Inl (case rr_err res1 of Some e \<Rightarrow> e | None \<Rightarrow> ErrInsufficientSalt) \<and>
            fst ?G = Inl (case rr_err res1 of Some e \<Rightarrow> e | None \<Rightarrow> ErrInsufficientSalt) \<and>
            snd (snd ?G) = r1" if n: "rr_n res1 \<noteq> 32"
  proof (cases "rr_err res1")
    case None
    from n have n': "rr_n res1 \<noteq> int saltLen" by (simp add: saltLen_def)
    note g = generatePasword_salt_short [where rd = rand_Read and r = r and kdf = IDKey and ak = ak, OF d1 None n']
    from g propa [OF g(1)] None show ?thesis by (simp add: ks)
  next
    case (Some e)
    note g = generatePasword_salt_error [where rd = rand_Read and r = r and kdf = IDKey and ak = ak, OF d1 Some]
    from g propa [OF g(1)] Some show ?thesis by (simp add: ks)
  qed
  have c2: "fst ?G = Inl e \<and> snd (snd ?G) = r1" if e: "rr_err res1 = Some e" for e
  proof -
    note g = generatePasword_salt_error [where rd = rand_Read and r = r and kdf = IDKey and ak = ak, OF d1 e]
    from g propa [OF g(1)] show ?thesis by (simp add: ks)
  qed
  have c3: "fst ?gp = Inl (case rr_err res2 of Some e \<Rightarrow> e | None \<Rightarrow> ErrInsufficientPassword) \<and>
            fst ?G = Inl (case rr_err res2 of Some e \<Rightarrow> e | None \<Rightarrow> ErrInsufficientPassword) \<and>
            snd (snd ?G) = r2"
    if h: "rr_err res1 = None \<and> rr_n res1 = 32 \<and> rr_n res2 \<noteq> 32"
  proof (cases "rr_err res2")
    case None
    from h have s: "rr_err res1 = None" "rr_n res1 = int saltLen"
      and n': "rr_n res2 \<noteq> int passwordLen"
      by (simp_all add: saltLen_def passwordLen_def)
    note g = generatePasword_password_short [where rd = rand_Read and r = r and kdf = IDKey and ak = ak, OF d1 s d2 None n']
    from g propa [OF g(1)] None show ?thesis by (simp add: ks)
  next
    case (Some e)
    from h have s: "rr_err res1 = None" "rr_n res1 = int saltLen"
      by (simp_all add: saltLen_def)
    note g = generatePasword_password_error [where rd = rand_Read and r = r and kdf = IDKey and ak = ak, OF d1 s d2 Some]
    from g propa [OF g(1)] Some show ?thesis by (simp add: ks)
  qed
  have c4: "fst ?G = Inl e \<and> snd (snd ?G) = r2"
    if h: "rr_err res1 = None \<and> rr_n res1 = 32 \<and> rr_err res2 = Some e" for e
  proof -
    from h have s: "rr_err res1 = None" "rr_n res1 = int saltLen" and p: "rr_err res2 = Some e"
      by (simp_all add: saltLen_def)
    note g = generatePasword_password_error [where rd = rand_Read and r = r and kdf = IDKey and ak = ak, OF d1 s d2 p]
    from g propa [OF g(1)] show ?thesis by (simp add: ks)
  qed
  have c6: "\<exists>password.
               fst ?gp = Inr password \<and>
               password = read_into (make_bytes 32) (rr_data res2) \<and>
               length password = 32 \<and>
               length (Salt (fst (snd ?G))) = 32 \<and>
               (length (rr_data res1) = 32 \<longrightarrow> Salt (fst (snd ?G)) = rr_data res1) \<and>
               (length (rr_data res2) = 32 \<longrightarrow> password = rr_data res2) \<and>
               apikey = EncodeToString (bytes_of_string
                 (Join [take apiKeyNameLen (DisplayName ak), ClientID ak, String (alg ak),
                        EncodeToString (read_into (make_bytes 32) (rr_data res1)),
                        EncodeToString (read_into (make_bytes 32) (rr_data res2))] ''.'')) \<and>
               rr_err res1 = None \<and> rr_n res1 = 32 \<and> rr_err res2 = None \<and> rr_n res2 = 32 \<and>
               snd (snd ?G) = r2"
    if ok: "fst ?G = Inr apikey" for apikey
  proof -
    obtain ak' r' where G: "?G = (Inr apikey, ak', r')"
      using ok by (cases ?G) auto
    from Generate_InrD [OF G] obtain password where
      gp: "?gp = (Inr password, ak', r')" by blast
    then have fgp: "fst ?gp = Inr password" by simp
    note dr = generatePasword_password_drawn [where rd = rand_Read and r = r and kdf = IDKey and ak = ak, OF d1 d2 fgp]
    have pw: "password = read_into (make_bytes 32) (rr_data res2)"
      using dr(1) by (simp add: passwordLen_def)
    have st: "snd (snd ?G) = r2" using dr(2) by (simp add: ks)
    have reads: "rr_err res1 = None \<and> rr_n res1 = 32 \<and> rr_err res2 = None \<and> rr_n res2 = 32"
      using generatePasword_success_reads [where rd = rand_Read and r = r and kdf = IDKey and ak = ak and password = password, OF d1 d2 fgp]
      by (simp add: saltLen_def passwordLen_def)
    have lens: "length password = 32" "length (Salt (fst (snd ?G))) = 32"
      using generatePasword_success(1) [OF gp] generatePasword_frame(4) [OF gp] G
      by (simp_all add: passwordLen_def saltLen_def)
    have full1: "Salt (fst (snd ?G)) = rr_data res1" if "length (rr_data res1) = 32"
      using that salt by (simp add: read_into_full make_bytes_def)
    have full2: "password = rr_data res2" if "length (rr_data res2) = 32"
      using that pw by (simp add: read_into_full make_bytes_def)
    have sk: "Salt ak' = read_into (make_bytes 32) (rr_data res1)"
      using salt G by simp
    have "apikey = EncodeToString (bytes_of_string
                 (Join [take apiKeyNameLen (DisplayName ak), ClientID ak, String (alg ak),
                        EncodeToString (read_into (make_bytes 32) (rr_data res1)),
                        EncodeToString (read_into (make_bytes 32) (rr_data res2))] ''.''))"
      using Generate_of_generatePasword [OF gp] G generatePasword_frame(1,2,3) [OF gp] sk pw
      by simp
    with fgp pw lens full1 full2 reads st show ?thesis by blast
  qed
  from salt c1 c2 c3 c4 propa c6 show ?thesis by (intro conjI allI impI) blast+
qed


theorem Generate_fails_on_short_read_witness:
  "(\<exists>apikey.
      fst (Generate (\<lambda>r n. (\<lparr>rr_data = replicate n (of_nat r), rr_n = int n, rr_err = None\<rparr>, Suc r))
             (\<lambda>p s t m th k. take (unat k) (p @ s)) (7 :: nat)
             \<lparr>alg = \<lparr>Time = 3, Memory = 64, KeyLen = 32, String = ''argon2id:3 64MB 32''\<rparr>,
              Salt = [], DerivedKey = [], ClientID = ''id'', DisplayName = ''n''\<rparr>) = Inr apikey) \<and>
   Salt (fst (snd (Generate (\<lambda>r n. (\<lparr>rr_data = replicate n (of_nat r), rr_n = int n, rr_err = None\<rparr>, Suc r))
             (\<lambda>p s t m th k. take (unat k) (p @ s)) (7 :: nat)
             \<lparr>alg = \<lparr>Time = 3, Memory = 64, KeyLen = 32, String = ''argon2id:3 64MB 32''\<rparr>,
              Salt = [], DerivedKey = [], ClientID = ''id'', DisplayName = ''n''\<rparr>)))
     = replicate 32 7 \<and>
   fst (generatePasword (\<lambda>r n. (\<lparr>rr_data = replicate n (of_nat r), rr_n = int n, rr_err = None\<rparr>, Suc r))
             (\<lambda>p s t m th k. take (unat k) (p @ s)) (7 :: nat)
             \<lparr>alg = \<lparr>Time = 3, Memory = 64, KeyLen = 32, String = ''argon2id:3 64MB 32''\<rparr>,
              Salt = [], DerivedKey = [], ClientID = ''id'', DisplayName = ''n''\<rparr>)
     = Inr (replicate 32 8) \<and>
   fst (Generate (\<lambda>r n. (\<lparr>rr_data = replicate r 1, rr_n = int r, rr_err = None\<rparr>, r - 1))
          (\<lambda>p s t m th k. take (unat k) (p @ s)) (32 :: nat)
          \<lparr>alg = \<lparr>Time = 3, Memory = 64, KeyLen = 32, String = ''argon2id:3 64MB 32''\<rparr>,
           Salt = [], DerivedKey = [], ClientID = ''id'', DisplayName = ''n''\<rparr>)
     = Inl ErrInsufficientPassword \<and>
   fst (Generate (\<lambda>r n. (\<lparr>rr_data = replicate r 1, rr_n = int r, rr_err = None\<rparr>, r - 1))
          (\<lambda>p s t m th k. take (unat k) (p @ s)) (31 :: nat)
          \<lparr>alg = \<lparr>Time = 3, Memory = 64, KeyLen = 32, String = ''argon2id:3 64MB 32''\<rparr>,
           Salt = [], DerivedKey = [], ClientID = ''id'', DisplayName = ''n''\<rparr>)
     = Inl ErrInsufficientSalt \<and>
   fst (Generate (\<lambda>r n. (\<lparr>rr_data = replicate 5 1, rr_n = 5,
                            rr_err = Some (ErrExternal ''unexpected EOF'')\<rparr>, Suc r))
          (\<lambda>p s t m th k. take (unat k) (p @ s)) (0 :: nat)
          \<lparr>alg = \<lparr>Time = 3, Memory = 64, KeyLen = 32, String = ''argon2id:3 64MB 32''\<rparr>,
           Salt = [], DerivedKey = [], ClientID = ''id'', DisplayName = ''n''\<rparr>)
     = Inl (ErrExternal ''unexpected EOF'')"
proof -
  let ?kdf = "\<lambda>(p :: byte list) (s :: byte list) (t :: 32 word) (m :: 32 word) (th :: 8 word) (k :: 32 word). take (unat k) (p @ s)"
  let ?ak = "\<lparr>alg = \<lparr>Time = 3, Memory = 64, KeyLen = 32, String = ''argon2id:3 64MB 32''\<rparr>,
           Salt = [], DerivedKey = [], ClientID = ''id'', DisplayName = ''n''\<rparr>"
  let ?ok = "\<lambda>(r :: nat) n. (\<lparr>rr_data = replicate n (of_nat r :: byte), rr_n = int n, rr_err = None\<rparr>, Suc r)"
  let ?rd = "\<lambda>(r :: nat) (n :: nat). (\<lparr>rr_data = replicate r (1 :: byte), rr_n = int r, rr_err = None\<rparr>, r - 1)"
  let ?eof = "\<lambda>(r :: nat) (n :: nat). (\<lparr>rr_data = replicate 5 (1 :: byte), rr_n = 5,
                            rr_err = Some (ErrExternal ''unexpected EOF'')\<rparr>, Suc r)"
  have o1: "?ok 7 saltLen = (\<lparr>rr_data = replicate 32 7, rr_n = 32, rr_err = None\<rparr>, 8)"
    by (simp add: saltLen_def)
  have o2: "?ok 8 passwordLen = (\<lparr>rr_data = replicate 32 8, rr_n = 32, rr_err = None\<rparr>, 9)"
    by (simp add: passwordLen_def)
  have gp: "generatePasword ?ok ?kdf 7 ?ak =
              (Inr (replicate 32 8), ?ak\<lparr>Salt := replicate 32 7, DerivedKey := replicate 32 8\<rparr>, 9)"
    by (simp add: generatePasword_def Let_def read_into_def make_bytes_def saltLen_def
          passwordLen_def argon2Threads_def)
  from Generate_of_generatePasword [OF gp] obtain apikey where
    G: "fst (Generate ?ok ?kdf 7 ?ak) = Inr apikey" by simp
  note i1 = Generate_fails_on_short_read [where rand_Read = ?ok and r = 7 and IDKey = ?kdf and ak = ?ak, OF o1 o2]
  from i1 have s1: "Salt (fst (snd (Generate ?ok ?kdf 7 ?ak))) =
      read_into (make_bytes 32) (rr_data \<lparr>rr_data = replicate 32 (7 :: byte), rr_n = 32, rr_err = None\<rparr>)"
    by (rule conjunct1)
  have s2: "Salt (fst (snd (Generate ?ok ?kdf 7 ?ak))) = replicate 32 7"
    unfolding s1 by (simp add: read_into_def make_bytes_def)
  have p1: "fst (generatePasword ?ok ?kdf 7 ?ak) = Inr (replicate 32 8)"
    using gp by simp
  have a1: "?rd 32 saltLen = (\<lparr>rr_data = replicate 32 1, rr_n = 32, rr_err = None\<rparr>, 31)"
    by simp
  have a2: "?rd 31 passwordLen = (\<lparr>rr_data = replicate 31 1, rr_n = 31, rr_err = None\<rparr>, 30)"
    by simp
  have b1: "?rd 31 saltLen = (\<lparr>rr_data = replicate 31 1, rr_n = 31, rr_err = None\<rparr>, 30)"
    by simp
  have b2: "?rd 30 passwordLen = (\<lparr>rr_data = replicate 30 1, rr_n = 30, rr_err = None\<rparr>, 29)"
    by simp
  have e1: "?eof 0 saltLen = (\<lparr>rr_data = replicate 5 1, rr_n = 5,
                            rr_err = Some (ErrExternal ''unexpected EOF'')\<rparr>, 1)"
    by simp
  have e2: "?eof 1 passwordLen = (\<lparr>rr_data = replicate 5 1, rr_n = 5,
                            rr_err = Some (ErrExternal ''unexpected EOF'')\<rparr>, 2)"
    by simp
  from Generate_fails_on_short_read [where rand_Read = ?rd and r = 32 and IDKey = ?kdf and ak = ?ak, OF a1 a2]
  have w2: "fst (Generate ?rd ?kdf 32 ?ak) = Inl ErrInsufficientPassword" by simp
  from Generate_fails_on_short_read [where rand_Read = ?rd and r = 31 and IDKey = ?kdf and ak = ?ak, OF b1 b2]
  have w3: "fst (Generate ?rd ?kdf 31 ?ak) = Inl ErrInsufficientSalt" by simp
  from Generate_fails_on_short_read [where rand_Read = ?eof and r = 0 and IDKey = ?kdf and ak = ?ak, OF e1 e2]
  have w4: "fst (Generate ?eof ?kdf 0 ?ak) = Inl (ErrExternal ''unexpected EOF'')" by simp
  from G have w1: "\<exists>apikey. fst (Generate ?ok ?kdf 7 ?ak) = Inr apikey" by (rule exI)
  show ?thesis
    by (intro conjI) (rule w1, rule s2, rule p1, rule w2, rule w3, rule w4)
qed

text \<open>
  A source that returns 5 bytes and its own error, as \<open>io.ReadFull\<close> does on a short
  read: \<open>Generate\<close> fails with the error of the source, not with the error of
  insufficient random bytes.
\<close>

theorem Generate_short_read_source_error_counterexample:
  "rr_n (fst ((\<lambda>r n. (\<lparr>rr_data = replicate 5 1, rr_n = 5,
                         rr_err = Some (ErrExternal ''unexpected EOF'')\<rparr>, Suc r)) (0 :: nat) saltLen)) < 32 \<and>
   fst (Generate (\<lambda>r n. (\<lparr>rr_data = replicate 5 1, rr_n = 5,
                            rr_err = Some (ErrExternal ''unexpected EOF'')\<rparr>, Suc r))
          (\<lambda>p s t m th k. take (unat k) (p @ s)) (0 :: nat)
          \<lparr>alg = \<lparr>Time = 3, Memory = 64, KeyLen = 32, String = ''argon2id:3 64MB 32''\<rparr>,
           Salt = [], DerivedKey = [], ClientID = ''id'', DisplayName = ''n''\<rparr>)
     = Inl (ErrExternal ''unexpected EOF'') \<and>
   fst (Generate (\<lambda>r n. (\<lparr>rr_data = replicate 5 1, rr_n = 5,
                            rr_err = Some (ErrExternal ''unexpected EOF'')\<rparr>, Suc r))
          (\<lambda>p s t m th k. take (unat k) (p @ s)) (0 :: nat)
          \<lparr>alg = \<lparr>Time = 3, Memory = 64, KeyLen = 32, String = ''argon2id:3 64MB 32''\<rparr>,
           Salt = [], DerivedKey = [], ClientID = ''id'', DisplayName = ''n''\<rparr>)
     \<noteq> Inl ErrInsufficientSalt"
  by (simp add: Generate_def generatePasword_def Let_def)

text \<open>
  C9 fails on the code: when the identifier generator fails (\<open>nanoid.ID\<close> returns the
  empty string and an error), \<open>SetOptions\<close> returns \<open>nil\<close> where it should return the
  error, so \<open>NewKey\<close> succeeds with an empty \<open>ClientID\<close>, in both layouts.
\<close>

theorem SetOptions_hides_identifier_failure:
  "NewKey (\<lambda>n. ([], Some (ErrExternal ''no random bytes''))) ''argon2id:3 64MB 32'' [] =
     (\<lparr>alg = \<lparr>Time = 3, Memory = 64, KeyLen = 32, String = ''argon2id:3 64MB 32''\<rparr>,
       Salt = [], DerivedKey = [], ClientID = [], DisplayName = []\<rparr>, None) \<and>
   SetOptions_basic (\<lambda>n. ([], Some (ErrExternal ''no random bytes''))) Key_basic_zero
       ''argon2id:3 64MB 32'' [] =
     (\<lparr>alg_basic = \<lparr>Time = 3, Memory = 64, KeyLen = 32, String = ''argon2id:3 64MB 32''\<rparr>,
       Salt_basic = [], DerivedKey_basic = [], ClientID_basic = []\<rparr>, None)"
  by (simp add: NewKey_def SetOptions_def SetOptions_basic_def ParseAlg_StandardAlg Key_zero_def
        Key_basic_zero_def Let_def)

end
